theory Spec2Isabelle
  imports Main "HOL-Library.Word" "HOL-Library.Sublist"
begin

text \<open>
  The filter controller of the research page, \<open>assets/js/research-filter.js\<close>: the
  closure with its two selections, \<open>updateDisplay\<close>, the click handlers of the type
  controls, the tag controls, the tag pills and the clear control, and
  \<open>toggleAbstract\<close>.  The document is the part of the page the script reads and writes.
\<close>

section \<open>Strings and attribute values\<close>

text \<open>
  A string of the script is a sequence of 16-bit code units.  \<open>getAttribute\<close> returns such
  a string, or \<open>null\<close> when the attribute is absent: \<open>None\<close> stands for \<open>null\<close>.
\<close>

type_synonym jsstring = "16 word list"

type_synonym jsattr = "jsstring option"

definition ascii :: "string \<Rightarrow> jsstring" where
  "ascii s = map (\<lambda>c. of_nat (of_char c)) s"

definition str_all :: jsstring where
  "str_all = ascii ''all''"

definition str_none :: jsstring where
  "str_none = ascii ''none''"

definition str_block :: jsstring where
  "str_block = ascii ''block''"

definition str_inline_block :: jsstring where
  "str_inline_block = ascii ''inline-block''"

text \<open>The two labels of the abstract toggle: the text \<open>Abstract\<close>, a space, and the
  glyph U+25B2 (pointing up, block open) or U+25BC (pointing down, block closed).\<close>

definition label_open :: jsstring where
  "label_open = ascii ''Abstract '' @ [0x25B2]"

definition label_closed :: jsstring where
  "label_closed = ascii ''Abstract '' @ [0x25BC]"

text \<open>\<open>ToString\<close> as applied to the argument of \<open>indexOf\<close>: \<open>null\<close> becomes the
  four-letter string.\<close>

definition ToString :: "jsattr \<Rightarrow> jsstring" where
  "ToString v = (case v of None \<Rightarrow> ascii ''null'' | Some s \<Rightarrow> s)"

text \<open>\<open>v || d\<close> for an attribute value \<open>v\<close> and a string \<open>d\<close>: \<open>null\<close> and the empty
  string are falsy.\<close>

definition js_or :: "jsattr \<Rightarrow> jsstring \<Rightarrow> jsstring" where
  "js_or v d = (case v of None \<Rightarrow> d | Some s \<Rightarrow> if s = [] then d else s)"

text \<open>\<open>this.indexOf(s)\<close>: the least position at which \<open>s\<close> starts in \<open>this\<close>, or \<open>-1\<close>.
  The first argument of \<open>indexOf_at\<close> is what is left of \<open>this\<close> from position \<open>k\<close> on.\<close>

fun indexOf_at :: "jsstring \<Rightarrow> jsstring \<Rightarrow> nat \<Rightarrow> int" where
  "indexOf_at [] s k = (if s = [] then int k else - 1)"
| "indexOf_at (c # cs) s k = (if prefix s (c # cs) then int k else indexOf_at cs s (Suc k))"

definition indexOf :: "jsstring \<Rightarrow> jsstring \<Rightarrow> int" where
  "indexOf this s = indexOf_at this s 0"

text \<open>Conversion of a count to its decimal string, as \<open>visible + " publication"\<close> does.\<close>

fun num_to_string :: "nat \<Rightarrow> jsstring" where
  "num_to_string n =
     (if n < 10 then [of_nat (48 + n)]
      else num_to_string (n div 10) @ [of_nat (48 + n mod 10)])"

declare num_to_string.simps [simp del]

section \<open>The page\<close>

text \<open>
  The elements the script queries, with the attributes it reads and the properties it
  writes: \<open>.pub-entry\<close> (\<open>pub\<close>), the controls (\<open>btn\<close>), \<open>#pub-count\<close>,
  \<open>#clear-filters\<close>, \<open>.filter-section\<close>.  A control is an element with the class
  \<open>type-btn\<close> or \<open>tag-btn\<close>; it may have both, and \<open>is_type_btn\<close> and \<open>is_tag_btn\<close>
  say which it has.  \<open>active\<close> is membership of the class \<open>active\<close> in the control's class
  list: one mark per element, whichever selector finds it.  The count node holds its
  text only.
\<close>

record pub =
  data_type :: jsattr
  data_tags :: jsattr
  style_display :: jsstring

record btn =
  is_type_btn :: bool
  is_tag_btn :: bool
  btn_data_type :: jsattr
  btn_data_tag :: jsattr
  active :: bool

record count_node =
  textContent :: jsstring

record clear_control =
  clear_display :: jsstring

record filter_section =
  in_view :: bool

text \<open>The markup as the script finds it at load; the controls stand in document
  order.\<close>

record document =
  pub_entry_elems :: "pub list"
  control_elems :: "btn list"
  pub_tag_elems :: "jsattr list"
  pub_count_elem :: "count_node option"
  clear_filters_elem :: "clear_control option"
  filter_section_elem :: "filter_section option"

text \<open>
  The state the handlers work on: the two variables of the closure, the references it took
  at load (\<open>allPubs\<close>, \<open>countEl\<close>, \<open>clearBtn\<close>), the elements later queries find (the
  controls, among which \<open>.type-btn\<close> and \<open>.tag-btn\<close> select; \<open>.pub-tag\<close> with its
  \<open>data-tag\<close>; \<open>.filter-section\<close>), and whether the clear control got its listener.
\<close>

record page =
  activeType :: jsattr
  activeTag :: jsattr
  allPubs :: "pub list"
  countEl :: "count_node option"
  clearBtn :: "clear_control option"
  controls :: "btn list"
  pubTags :: "jsattr list"
  filterSection :: "filter_section option"
  clearWired :: bool

section \<open>Errors\<close>

text \<open>Reading or writing a property of \<open>null\<close> throws a \<open>TypeError\<close>.\<close>

datatype error = TypeError

definition truthy :: "'a option \<Rightarrow> bool" where
  "truthy r = (r \<noteq> None)"

definition set_textContent :: "count_node option \<Rightarrow> jsstring \<Rightarrow> error + count_node option" where
  "set_textContent r s =
     (case r of None \<Rightarrow> Inl TypeError | Some el \<Rightarrow> Inr (Some (el\<lparr>textContent := s\<rparr>)))"

definition set_clear_display ::
  "clear_control option \<Rightarrow> jsstring \<Rightarrow> error + clear_control option" where
  "set_clear_display r s =
     (case r of None \<Rightarrow> Inl TypeError | Some el \<Rightarrow> Inr (Some (el\<lparr>clear_display := s\<rparr>)))"

definition scrollIntoView :: "filter_section option \<Rightarrow> error + filter_section option" where
  "scrollIntoView r =
     (case r of None \<Rightarrow> Inl TypeError | Some el \<Rightarrow> Inr (Some (el\<lparr>in_view := True\<rparr>)))"

definition addEventListener :: "clear_control option \<Rightarrow> error + bool" where
  "addEventListener r = (case r of None \<Rightarrow> Inl TypeError | Some el \<Rightarrow> Inr True)"

section \<open>updateDisplay\<close>

text \<open>Lines 16 to 41 of the script.  \<open>typeMatch\<close> and \<open>tagMatch\<close> are the two variables
  of the loop body, as functions of the selection and of what was read off the entry.\<close>

definition typeMatch :: "jsattr \<Rightarrow> jsattr \<Rightarrow> bool" where
  "typeMatch aType pubType = (aType = Some str_all \<or> pubType = aType)"

definition tagMatch :: "jsattr \<Rightarrow> jsstring \<Rightarrow> bool" where
  "tagMatch aTag pubTags_str = (aTag = Some str_all \<or> indexOf pubTags_str (ToString aTag) \<noteq> - 1)"

text \<open>The \<open>forEach\<close> over \<open>allPubs\<close>, with the counter \<open>visible\<close> it increments.\<close>

fun forEach_pub :: "jsattr \<Rightarrow> jsattr \<Rightarrow> pub list \<Rightarrow> nat \<Rightarrow> pub list \<times> nat" where
  "forEach_pub aType aTag [] visible = ([], visible)"
| "forEach_pub aType aTag (p # rest) visible =
     (let pubType = data_type p;
          pubTags_str = js_or (data_tags p) []
      in if typeMatch aType pubType \<and> tagMatch aTag pubTags_str
         then (case forEach_pub aType aTag rest (visible + 1) of
                 (rest', n) \<Rightarrow> (p\<lparr>style_display := []\<rparr> # rest', n))
         else (case forEach_pub aType aTag rest visible of
                 (rest', n) \<Rightarrow> (p\<lparr>style_display := str_none\<rparr> # rest', n)))"

definition count_text :: "nat \<Rightarrow> jsstring" where
  "count_text visible =
     num_to_string visible @ ascii '' publication'' @ (if visible \<noteq> 1 then ascii ''s'' else [])"

definition updateDisplay :: "page \<Rightarrow> error + page" where
  "updateDisplay s =
     (case forEach_pub (activeType s) (activeTag s) (allPubs s) 0 of
        (pubs, visible) \<Rightarrow>
          (case (if truthy (countEl s) then set_textContent (countEl s) (count_text visible)
                 else Inr (countEl s)) of
             Inl e \<Rightarrow> Inl e
           | Inr ce \<Rightarrow>
               (case (if truthy (clearBtn s)
                      then set_clear_display (clearBtn s)
                             (if activeType s \<noteq> Some str_all \<or> activeTag s \<noteq> Some str_all
                              then str_inline_block else str_none)
                      else Inr (clearBtn s)) of
                  Inl e \<Rightarrow> Inl e
                | Inr cb \<Rightarrow> Inr (s\<lparr>allPubs := pubs, countEl := ce, clearBtn := cb\<rparr>))))"

section \<open>The click handlers\<close>

text \<open>
  Lines 44 to 104 of the script.  Each handler is the listener of one element: of the
  \<open>i\<close>-th control as a \<open>.type-btn\<close>, of the \<open>i\<close>-th control as a \<open>.tag-btn\<close>, of the \<open>k\<close>-th
  \<open>.pub-tag\<close>.  A control without the class, and an index past the end, have no such
  listener, and nothing happens.  \<open>querySelectorAll(".type-btn")\<close> finds the controls
  with \<open>is_type_btn\<close>, \<open>querySelectorAll(".tag-btn")\<close> those with \<open>is_tag_btn\<close>, and the
  selector of the clear handler those with either; the handler writes the mark of the
  controls it finds and of no other.  A click on a control with both classes runs its
  two listeners, the one added first (\<open>type_btn_click\<close>) first.
\<close>

definition type_btn_click :: "nat \<Rightarrow> page \<Rightarrow> error + page" where
  "type_btn_click i s =
     (if i < length (controls s) \<and> is_type_btn (controls s ! i)
      then (let bs = map (\<lambda>b. if is_type_btn b then b\<lparr>active := False\<rparr> else b) (controls s);
                bs' = bs[i := (bs ! i)\<lparr>active := True\<rparr>]
            in updateDisplay (s\<lparr>controls := bs', activeType := btn_data_type (bs' ! i)\<rparr>))
      else Inr s)"

definition tag_btn_click :: "nat \<Rightarrow> page \<Rightarrow> error + page" where
  "tag_btn_click i s =
     (if i < length (controls s) \<and> is_tag_btn (controls s ! i)
      then (let bs = map (\<lambda>b. if is_tag_btn b then b\<lparr>active := False\<rparr> else b) (controls s);
                bs' = bs[i := (bs ! i)\<lparr>active := True\<rparr>]
            in updateDisplay (s\<lparr>controls := bs', activeTag := btn_data_tag (bs' ! i)\<rparr>))
      else Inr s)"

definition pub_tag_click :: "nat \<Rightarrow> page \<Rightarrow> error + page" where
  "pub_tag_click k s =
     (if k < length (pubTags s)
      then (let tag = pubTags s ! k;
                bs = map (\<lambda>b. if is_tag_btn b
                               then (if btn_data_tag b = tag then b\<lparr>active := True\<rparr>
                                     else b\<lparr>active := False\<rparr>)
                               else b) (controls s)
            in case updateDisplay (s\<lparr>controls := bs, activeTag := tag\<rparr>) of
                 Inl e \<Rightarrow> Inl e
               | Inr s' \<Rightarrow>
                   (if truthy (filterSection s')
                    then (case scrollIntoView (filterSection s') of
                            Inl e \<Rightarrow> Inl e
                          | Inr fs \<Rightarrow> Inr (s'\<lparr>filterSection := fs\<rparr>))
                    else Inr s'))
      else Inr s)"

definition reset_btn :: "btn \<Rightarrow> btn" where
  "reset_btn b =
     (if is_type_btn b \<or> is_tag_btn b
      then (if btn_data_type b = Some str_all \<or> btn_data_tag b = Some str_all
            then b\<lparr>active := True\<rparr> else b\<lparr>active := False\<rparr>)
      else b)"

definition clear_click :: "page \<Rightarrow> error + page" where
  "clear_click s =
     updateDisplay (s\<lparr>activeType := Some str_all, activeTag := Some str_all,
                      controls := map reset_btn (controls s)\<rparr>)"

section \<open>toggleAbstract\<close>

text \<open>
  Lines 107 to 116 of the script.  The control handed to \<open>toggleAbstract\<close>: its text,
  and the element that follows it (\<open>nextElementSibling\<close>, \<open>null\<close> when there is none)
  with its inline \<open>display\<close>.
\<close>

record abstract_block =
  abstract_display :: jsstring

record toggle_btn =
  btn_textContent :: jsstring
  nextElementSibling :: "abstract_block option"

definition toggleAbstract :: "toggle_btn \<Rightarrow> error + toggle_btn" where
  "toggleAbstract b =
     (case nextElementSibling b of
        None \<Rightarrow> Inl TypeError
      | Some abstractEl \<Rightarrow>
          if abstract_display abstractEl = str_none \<or> abstract_display abstractEl = []
          then Inr (b\<lparr>nextElementSibling := Some (abstractEl\<lparr>abstract_display := str_block\<rparr>),
                      btn_textContent := label_open\<rparr>)
          else Inr (b\<lparr>nextElementSibling := Some (abstractEl\<lparr>abstract_display := str_none\<rparr>),
                      btn_textContent := label_closed\<rparr>))"

section \<open>Load and events\<close>

text \<open>
  The body of the script at load: both selections \<open>"all"\<close>, the references taken, the
  listener of the clear control added when the control exists, one run of
  \<open>updateDisplay\<close>.  After the load, an event is a click on one of the elements that
  have a listener; a click on the clear control reaches its handler when the listener
  was added.
\<close>

definition init :: "document \<Rightarrow> error + page" where
  "init d =
     (case (if truthy (clear_filters_elem d) then addEventListener (clear_filters_elem d)
            else Inr False) of
        Inl e \<Rightarrow> Inl e
      | Inr wired \<Rightarrow>
          updateDisplay
            \<lparr>activeType = Some str_all, activeTag = Some str_all,
             allPubs = pub_entry_elems d, countEl = pub_count_elem d,
             clearBtn = clear_filters_elem d, controls = control_elems d,
             pubTags = pub_tag_elems d,
             filterSection = filter_section_elem d, clearWired = wired\<rparr>)"

datatype event = TypeBtnClick nat | TagBtnClick nat | PubTagClick nat | ClearClick

fun fire :: "event \<Rightarrow> page \<Rightarrow> error + page" where
  "fire (TypeBtnClick i) s = type_btn_click i s"
| "fire (TagBtnClick i) s = tag_btn_click i s"
| "fire (PubTagClick k) s = pub_tag_click k s"
| "fire ClearClick s = (if clearWired s then clear_click s else Inr s)"

fun run :: "event list \<Rightarrow> page \<Rightarrow> error + page" where
  "run [] s = Inr s"
| "run (e # es) s = (case fire e s of Inl x \<Rightarrow> Inl x | Inr s' \<Rightarrow> run es s')"

section \<open>Properties of pages\<close>

text \<open>Visibility of an entry, as the inline style says it.\<close>

definition is_visible :: "pub \<Rightarrow> bool" where
  "is_visible p = (style_display p \<noteq> str_none)"

text \<open>Whether the clear control is shown, as its inline style says it.\<close>

definition clear_shown :: "clear_control \<Rightarrow> bool" where
  "clear_shown c = (clear_display c \<noteq> str_none)"

text \<open>What the loop of \<open>updateDisplay\<close> decides for one entry, and what it writes.\<close>

definition entry_shown :: "jsattr \<Rightarrow> jsattr \<Rightarrow> pub \<Rightarrow> bool" where
  "entry_shown aType aTag p =
     (typeMatch aType (data_type p) \<and> tagMatch aTag (js_or (data_tags p) []))"

definition restyle :: "jsattr \<Rightarrow> jsattr \<Rightarrow> pub \<Rightarrow> pub" where
  "restyle aType aTag p = p\<lparr>style_display := (if entry_shown aType aTag p then [] else str_none)\<rparr>"

text \<open>The type controls and the tag controls of a page, as the two selectors find
  them.\<close>

definition type_controls :: "page \<Rightarrow> btn list" where
  "type_controls s = filter is_type_btn (controls s)"

definition tag_controls :: "page \<Rightarrow> btn list" where
  "tag_controls s = filter is_tag_btn (controls s)"

text \<open>Exactly one control of each group carries the mark, and the marked control's value
  is the selection.\<close>

definition marks_match :: "page \<Rightarrow> bool" where
  "marks_match s =
     (length (filter active (type_controls s)) = 1 \<and>
      list_all (\<lambda>b. \<not> active b \<or> btn_data_type b = activeType s) (type_controls s) \<and>
      length (filter active (tag_controls s)) = 1 \<and>
      list_all (\<lambda>b. \<not> active b \<or> btn_data_tag b = activeTag s) (tag_controls s))"

text \<open>The test the clear handler applies to a control it finds.\<close>

definition resets_active :: "btn \<Rightarrow> bool" where
  "resets_active b = (btn_data_type b = Some str_all \<or> btn_data_tag b = Some str_all)"

text \<open>
  Conditions on the markup: no control has both classes; in each group exactly one
  control passes the test of the clear handler, and it is the group's \<open>"all"\<close> control;
  the tag of every pill is the \<open>data-tag\<close> of exactly one tag control.
\<close>

definition no_shared_control :: "page \<Rightarrow> bool" where
  "no_shared_control s = list_all (\<lambda>b. \<not> (is_type_btn b \<and> is_tag_btn b)) (controls s)"

definition markup_ok :: "page \<Rightarrow> bool" where
  "markup_ok s =
     (no_shared_control s \<and>
      length (filter resets_active (type_controls s)) = 1 \<and>
      list_all (\<lambda>b. \<not> resets_active b \<or> btn_data_type b = Some str_all) (type_controls s) \<and>
      length (filter resets_active (tag_controls s)) = 1 \<and>
      list_all (\<lambda>b. \<not> resets_active b \<or> btn_data_tag b = Some str_all) (tag_controls s) \<and>
      list_all (\<lambda>t. length (filter (\<lambda>b. btn_data_tag b = t) (tag_controls s)) = 1)
        (pubTags s))"

text \<open>The classes and attributes of a control; no handler writes them.\<close>

definition btn_attrs :: "btn \<Rightarrow> bool \<times> bool \<times> jsattr \<times> jsattr" where
  "btn_attrs b = (is_type_btn b, is_tag_btn b, btn_data_type b, btn_data_tag b)"

text \<open>A page without its count node, and without its clear control.\<close>

definition without_count :: "page \<Rightarrow> page" where
  "without_count s = s\<lparr>countEl := None\<rparr>"

definition without_clear :: "page \<Rightarrow> page" where
  "without_clear s = s\<lparr>clearBtn := None\<rparr>"

text \<open>The number a string of decimal digits stands for.\<close>

definition decimal_value :: "jsstring \<Rightarrow> nat" where
  "decimal_value s = foldl (\<lambda>a c. 10 * a + (unat c - 48)) 0 s"

text \<open>
  The decimal numeral of a number, said without the conversion of the script: a
  non-empty string of the digits \<open>0\<close> to \<open>9\<close>, with no leading \<open>0\<close> unless it is the
  string \<open>0\<close>, whose value is the number.
\<close>

definition decimal_numeral :: "nat \<Rightarrow> jsstring \<Rightarrow> bool" where
  "decimal_numeral n ds =
     (ds \<noteq> [] \<and> list_all (\<lambda>c. 0x30 \<le> c \<and> c \<le> 0x39) ds \<and>
      (ds = [0x30] \<or> hd ds \<noteq> 0x30) \<and> decimal_value ds = n)"

text \<open>The tag tokens of a \<open>data-tags\<close> string: its pieces between commas, as
  \<open>split(",")\<close> gives them.\<close>

fun split_comma :: "jsstring \<Rightarrow> jsstring \<Rightarrow> jsstring list" where
  "split_comma acc [] = [rev acc]"
| "split_comma acc (c # cs) =
     (if c = 0x2C then rev acc # split_comma [] cs else split_comma (c # acc) cs)"

definition tag_tokens :: "jsstring \<Rightarrow> jsstring list" where
  "tag_tokens s = split_comma [] s"

section \<open>Example pages\<close>

text \<open>A type control and a tag control with the given value and mark.\<close>

definition type_btn :: "jsstring \<Rightarrow> bool \<Rightarrow> btn" where
  "type_btn v a =
     \<lparr>is_type_btn = True, is_tag_btn = False, btn_data_type = Some v, btn_data_tag = None,
      active = a\<rparr>"

definition tag_btn :: "jsstring \<Rightarrow> bool \<Rightarrow> btn" where
  "tag_btn v a =
     \<lparr>is_type_btn = False, is_tag_btn = True, btn_data_type = None, btn_data_tag = Some v,
      active = a\<rparr>"

text \<open>Three entries: a paper tagged \<open>ai,policy\<close>, an article tagged \<open>policy\<close>, a paper
  tagged \<open>tiktok\<close>; type controls \<open>all\<close>, \<open>paper\<close>, \<open>article\<close>; tag controls \<open>all\<close>, \<open>ai\<close>,
  \<open>policy\<close>, \<open>tiktok\<close>; one pill per tag of each entry.\<close>

definition example_doc :: document where
  "example_doc =
     \<lparr>pub_entry_elems =
        [\<lparr>data_type = Some (ascii ''paper''), data_tags = Some (ascii ''ai,policy''),
          style_display = []\<rparr>,
         \<lparr>data_type = Some (ascii ''article''), data_tags = Some (ascii ''policy''),
          style_display = []\<rparr>,
         \<lparr>data_type = Some (ascii ''paper''), data_tags = Some (ascii ''tiktok''),
          style_display = []\<rparr>],
      control_elems =
        [type_btn str_all True, type_btn (ascii ''paper'') False,
         type_btn (ascii ''article'') False,
         tag_btn str_all True, tag_btn (ascii ''ai'') False, tag_btn (ascii ''policy'') False,
         tag_btn (ascii ''tiktok'') False],
      pub_tag_elems =
        [Some (ascii ''ai''), Some (ascii ''policy''), Some (ascii ''policy''),
         Some (ascii ''tiktok'')],
      pub_count_elem = Some \<lparr>textContent = []\<rparr>,
      clear_filters_elem = Some \<lparr>clear_display = str_none\<rparr>,
      filter_section_elem = Some \<lparr>in_view = False\<rparr>\<rparr>"

text \<open>The page of \<open>example_doc\<close> with type \<open>paper\<close> and tag \<open>tiktok\<close> selected, before
  \<open>updateDisplay\<close> has run.\<close>

definition example_page :: page where
  "example_page =
     \<lparr>activeType = Some (ascii ''paper''), activeTag = Some (ascii ''tiktok''),
      allPubs = pub_entry_elems example_doc, countEl = pub_count_elem example_doc,
      clearBtn = clear_filters_elem example_doc,
      controls =
        [type_btn str_all False, type_btn (ascii ''paper'') True,
         type_btn (ascii ''article'') False,
         tag_btn str_all False, tag_btn (ascii ''ai'') False, tag_btn (ascii ''policy'') False,
         tag_btn (ascii ''tiktok'') True],
      pubTags = pub_tag_elems example_doc,
      filterSection = filter_section_elem example_doc, clearWired = True\<rparr>"

text \<open>\<open>example_page\<close> after \<open>updateDisplay\<close>: only the third entry matches.\<close>

definition example_page_shown :: page where
  "example_page_shown =
     example_page
       \<lparr>allPubs :=
          [\<lparr>data_type = Some (ascii ''paper''), data_tags = Some (ascii ''ai,policy''),
            style_display = str_none\<rparr>,
           \<lparr>data_type = Some (ascii ''article''), data_tags = Some (ascii ''policy''),
            style_display = str_none\<rparr>,
           \<lparr>data_type = Some (ascii ''paper''), data_tags = Some (ascii ''tiktok''),
            style_display = []\<rparr>],
        countEl := Some \<lparr>textContent = ascii ''1 publication''\<rparr>,
        clearBtn := Some \<lparr>clear_display = str_inline_block\<rparr>\<rparr>"

text \<open>The example markup without its count node and without its clear control.\<close>

definition bare_doc :: document where
  "bare_doc = example_doc\<lparr>pub_count_elem := None, clear_filters_elem := None\<rparr>"

text \<open>A page whose only entry has no \<open>data-tags\<close> attribute, with every type and the
  tag \<open>tiktok\<close> selected.\<close>

definition untagged_page :: page where
  "untagged_page =
     example_page
       \<lparr>activeType := Some str_all,
        allPubs := [\<lparr>data_type = Some (ascii ''paper''), data_tags = None,
                     style_display = []\<rparr>]\<rparr>"

text \<open>A page with twelve entries of one kind, every type and every tag selected.\<close>

definition twelve_page :: page where
  "twelve_page =
     example_page
       \<lparr>activeType := Some str_all, activeTag := Some str_all,
        allPubs := replicate 12 \<lparr>data_type = Some (ascii ''paper''),
                                  data_tags = Some (ascii ''ai''), style_display = str_none\<rparr>\<rparr>"

text \<open>The example markup with a single pill, whose tag \<open>methods\<close> no tag control carries;
  the page it loads as; and that page after a click on the pill.\<close>

definition unlisted_doc :: document where
  "unlisted_doc = example_doc\<lparr>pub_tag_elems := [Some (ascii ''methods'')]\<rparr>"

definition unlisted_page :: page where
  "unlisted_page =
     \<lparr>activeType = Some str_all, activeTag = Some str_all,
      allPubs = pub_entry_elems example_doc,
      countEl = Some \<lparr>textContent = ascii ''3 publications''\<rparr>,
      clearBtn = Some \<lparr>clear_display = str_none\<rparr>,
      controls = control_elems example_doc,
      pubTags = [Some (ascii ''methods'')],
      filterSection = Some \<lparr>in_view = False\<rparr>, clearWired = True\<rparr>"

definition unlisted_page_after :: page where
  "unlisted_page_after =
     unlisted_page
       \<lparr>activeTag := Some (ascii ''methods''),
        allPubs := map (\<lambda>p. p\<lparr>style_display := str_none\<rparr>) (pub_entry_elems example_doc),
        countEl := Some \<lparr>textContent = ascii ''0 publications''\<rparr>,
        clearBtn := Some \<lparr>clear_display = str_inline_block\<rparr>,
        controls :=
          [type_btn str_all True, type_btn (ascii ''paper'') False,
           type_btn (ascii ''article'') False,
           tag_btn str_all False, tag_btn (ascii ''ai'') False,
           tag_btn (ascii ''policy'') False, tag_btn (ascii ''tiktok'') False],
        filterSection := Some \<lparr>in_view = True\<rparr>\<rparr>"

text \<open>A page on which the \<open>all\<close> control is shared: one button with both classes, with
  \<open>data-type\<close> and \<open>data-tag\<close> \<open>all\<close>, beside a type control \<open>paper\<close>, a tag control \<open>ai\<close>
  and one pill \<open>ai\<close>; the markup, the page it loads as, and that page after a click on
  the pill.\<close>

definition shared_all :: "bool \<Rightarrow> btn" where
  "shared_all a =
     \<lparr>is_type_btn = True, is_tag_btn = True, btn_data_type = Some str_all,
      btn_data_tag = Some str_all, active = a\<rparr>"

definition shared_doc :: document where
  "shared_doc =
     example_doc
       \<lparr>control_elems :=
          [shared_all True, type_btn (ascii ''paper'') False, tag_btn (ascii ''ai'') False],
        pub_tag_elems := [Some (ascii ''ai'')]\<rparr>"

definition shared_page :: page where
  "shared_page =
     \<lparr>activeType = Some str_all, activeTag = Some str_all,
      allPubs = pub_entry_elems example_doc,
      countEl = Some \<lparr>textContent = ascii ''3 publications''\<rparr>,
      clearBtn = Some \<lparr>clear_display = str_none\<rparr>,
      controls =
        [shared_all True, type_btn (ascii ''paper'') False, tag_btn (ascii ''ai'') False],
      pubTags = [Some (ascii ''ai'')],
      filterSection = Some \<lparr>in_view = False\<rparr>, clearWired = True\<rparr>"

definition shared_page_after :: page where
  "shared_page_after =
     shared_page
       \<lparr>activeTag := Some (ascii ''ai''),
        allPubs :=
          [\<lparr>data_type = Some (ascii ''paper''), data_tags = Some (ascii ''ai,policy''),
            style_display = []\<rparr>,
           \<lparr>data_type = Some (ascii ''article''), data_tags = Some (ascii ''policy''),
            style_display = str_none\<rparr>,
           \<lparr>data_type = Some (ascii ''paper''), data_tags = Some (ascii ''tiktok''),
            style_display = str_none\<rparr>],
        countEl := Some \<lparr>textContent = ascii ''1 publication''\<rparr>,
        clearBtn := Some \<lparr>clear_display = str_inline_block\<rparr>,
        controls :=
          [shared_all False, type_btn (ascii ''paper'') False, tag_btn (ascii ''ai'') True],
        filterSection := Some \<lparr>in_view = True\<rparr>\<rparr>"

text \<open>Three states of an abstract toggle: as the page is loaded, with no inline style on
  the block; opened; closed again.\<close>

definition abstract_unstyled :: toggle_btn where
  "abstract_unstyled =
     \<lparr>btn_textContent = label_closed, nextElementSibling = Some \<lparr>abstract_display = []\<rparr>\<rparr>"

definition abstract_opened :: toggle_btn where
  "abstract_opened =
     \<lparr>btn_textContent = label_open,
      nextElementSibling = Some \<lparr>abstract_display = str_block\<rparr>\<rparr>"

definition abstract_closed :: toggle_btn where
  "abstract_closed =
     \<lparr>btn_textContent = label_closed,
      nextElementSibling = Some \<lparr>abstract_display = str_none\<rparr>\<rparr>"

section \<open>Facts about strings\<close>

lemma str_none_nonempty: "str_none \<noteq> []"
  by (simp add: str_none_def ascii_def)

lemma str_inline_block_neq: "str_inline_block \<noteq> str_none"
  by (simp add: str_inline_block_def str_none_def ascii_def)

lemma str_block_neq: "str_block \<noteq> str_none" "str_block \<noteq> []"
  by (simp_all add: str_block_def str_none_def ascii_def)

lemma label_neq: "label_open \<noteq> label_closed"
  by (simp add: label_open_def label_closed_def)

lemma unat_digit: "d < 10 \<Longrightarrow> unat (of_nat (48 + d) :: 16 word) = 48 + d"
  by (simp only: unat_of_nat) simp

lemma decimal_value_snoc: "decimal_value (s @ [c]) = 10 * decimal_value s + (unat c - 48)"
  by (simp add: decimal_value_def)

lemma decimal_value_num_to_string: "decimal_value (num_to_string n) = n"
proof (induction n rule: num_to_string.induct)
  case (1 n)
  show ?case
  proof (cases "n < 10")
    case True
    then have "num_to_string n = [] @ [of_nat (48 + n)]"
      by (subst num_to_string.simps) simp
    then have "decimal_value (num_to_string n) = unat (of_nat (48 + n) :: 16 word) - 48"
      by (simp add: decimal_value_def del: of_nat_add)
    with unat_digit [OF True] show ?thesis by (simp only:)
  next
    case False
    then have "num_to_string n = num_to_string (n div 10) @ [of_nat (48 + n mod 10)]"
      by (subst num_to_string.simps) simp
    then have "decimal_value (num_to_string n) =
        10 * decimal_value (num_to_string (n div 10)) +
        (unat (of_nat (48 + n mod 10) :: 16 word) - 48)"
      by (simp only: decimal_value_snoc)
    moreover have "unat (of_nat (48 + n mod 10) :: 16 word) = 48 + n mod 10"
      by (rule unat_digit) simp
    ultimately show ?thesis using "1.IH" [OF False] by (simp only:) simp
  qed
qed

lemma digit_bounds:
  fixes c :: "16 word"
  shows "0x30 \<le> c \<and> c \<le> 0x39 \<longleftrightarrow> 48 \<le> unat c \<and> unat c \<le> 57"
  by (simp add: word_le_nat_alt)

lemma digit_of_value:
  fixes c :: "16 word"
  assumes "0x30 \<le> c" and "c \<le> 0x39"
  shows "of_nat (48 + (unat c - 48)) = c" and "unat c - 48 < 10"
proof -
  from assms digit_bounds [of c] have b: "48 \<le> unat c" "unat c \<le> 57"
    by blast+
  then have "48 + (unat c - 48) = unat c" by simp
  then have "(of_nat (48 + (unat c - 48)) :: 16 word) = of_nat (unat c)"
    by (simp only:)
  then show "of_nat (48 + (unat c - 48)) = c" by simp
  from b show "unat c - 48 < 10" by simp
qed

lemma digit_is_digit:
  assumes "d < 10"
  shows "(0x30 :: 16 word) \<le> of_nat (48 + d)" and "(of_nat (48 + d) :: 16 word) \<le> 0x39"
    and "(of_nat (48 + d) :: 16 word) = 0x30 \<longleftrightarrow> d = 0"
proof -
  have u: "unat (of_nat (48 + d) :: 16 word) = 48 + d"
    by (rule unat_digit [OF assms])
  from u assms show "(0x30 :: 16 word) \<le> of_nat (48 + d)"
    by (simp only: word_le_nat_alt) simp
  from u assms show "(of_nat (48 + d) :: 16 word) \<le> 0x39"
    by (simp only: word_le_nat_alt) simp
  have "(of_nat (48 + d) :: 16 word) = 0x30 \<longleftrightarrow> unat (of_nat (48 + d) :: 16 word) = unat (0x30 :: 16 word)"
    by (simp only: word_unat_eq_iff)
  with u show "(of_nat (48 + d) :: 16 word) = 0x30 \<longleftrightarrow> d = 0"
    by (simp only:) simp
qed

lemma decimal_value_single: "decimal_value [c] = unat c - 48"
  by (simp add: decimal_value_def)

lemma num_to_string_small: "n < 10 \<Longrightarrow> num_to_string n = [of_nat (48 + n)]"
  by (subst num_to_string.simps) simp

lemma num_to_string_large:
  "\<not> n < 10 \<Longrightarrow> num_to_string n = num_to_string (n div 10) @ [of_nat (48 + n mod 10)]"
  by (subst num_to_string.simps) simp

lemma num_to_string_numeral: "decimal_numeral n (num_to_string n)"
proof (induction n rule: num_to_string.induct)
  case (1 n)
  show ?case
  proof (cases "n < 10")
    case True
    let ?d = "of_nat (48 + n) :: 16 word"
    from digit_is_digit(1,2) [OF True]
    have "list_all (\<lambda>c. 0x30 \<le> c \<and> c \<le> 0x39) [?d]"
      by simp
    moreover have "[?d] = [0x30] \<or> hd [?d] \<noteq> 0x30"
      by simp
    moreover have "[?d] \<noteq> []"
      by simp
    moreover from decimal_value_num_to_string [of n]
    have "decimal_value [?d] = n"
      by (simp only: num_to_string_small [OF True])
    ultimately show ?thesis
      by (simp only: decimal_numeral_def num_to_string_small [OF True] simp_thms)
  next
    case False
    let ?xs = "num_to_string (n div 10)"
    let ?d = "of_nat (48 + n mod 10) :: 16 word"
    from "1.IH" [OF False] have ih: "decimal_numeral (n div 10) ?xs" .
    then have ne: "?xs \<noteq> []" and dg: "list_all (\<lambda>c. 0x30 \<le> c \<and> c \<le> 0x39) ?xs"
      and ld: "?xs = [0x30] \<or> hd ?xs \<noteq> 0x30" and vl: "decimal_value ?xs = n div 10"
      by (simp_all add: decimal_numeral_def)
    have m: "n mod 10 < 10" by simp
    from False have pos: "n div 10 \<noteq> 0" by simp
    have "?xs \<noteq> [0x30]"
    proof
      assume "?xs = [0x30]"
      then have "decimal_value ?xs = 0" by (simp add: decimal_value_def)
      with vl pos show False by simp
    qed
    with ld have "hd ?xs \<noteq> 0x30" by simp
    with ne have lead: "hd (?xs @ [?d]) \<noteq> 0x30" by simp
    from dg digit_is_digit(1,2) [OF m]
    have digits: "list_all (\<lambda>c. 0x30 \<le> c \<and> c \<le> 0x39) (?xs @ [?d])"
      by simp
    have "?xs @ [?d] \<noteq> []" by simp
    moreover from decimal_value_num_to_string [of n]
    have "decimal_value (?xs @ [?d]) = n"
      by (simp only: num_to_string_large [OF False])
    ultimately show ?thesis
      using lead digits
      by (simp only: decimal_numeral_def num_to_string_large [OF False] simp_thms)
  qed
qed

lemma decimal_value_zero:
  "list_all (\<lambda>c. 0x30 \<le> c \<and> c \<le> 0x39) ds \<Longrightarrow> decimal_value ds = 0 \<Longrightarrow>
   list_all (\<lambda>c. c = 0x30) ds"
proof (induction ds rule: rev_induct)
  case Nil
  then show ?case by simp
next
  case (snoc c xs)
  from snoc.prems(1) have dx: "list_all (\<lambda>c. 0x30 \<le> c \<and> c \<le> 0x39) xs"
    and dc: "0x30 \<le> c" "c \<le> 0x39"
    by simp_all
  from snoc.prems(2) have z: "decimal_value xs = 0" "unat c - 48 = 0"
    by (simp_all add: decimal_value_snoc)
  from digit_of_value(1) [OF dc] z(2) have "c = 0x30" by simp
  with snoc.IH [OF dx z(1)] show ?case by simp
qed

lemma decimal_numeral_unique: "decimal_numeral n ds \<Longrightarrow> ds = num_to_string n"
proof (induction ds arbitrary: n rule: rev_induct)
  case Nil
  then show ?case by (simp add: decimal_numeral_def)
next
  case (snoc c xs)
  from snoc.prems have dx: "list_all (\<lambda>c. 0x30 \<le> c \<and> c \<le> 0x39) xs"
    and dc: "0x30 \<le> c" "c \<le> 0x39"
    and ld: "xs @ [c] = [0x30] \<or> hd (xs @ [c]) \<noteq> 0x30"
    and vl: "10 * decimal_value xs + (unat c - 48) = n"
    by (simp_all add: decimal_numeral_def decimal_value_snoc)
  note c = digit_of_value [OF dc]
  show ?case
  proof (cases xs)
    case Nil
    with vl c(2) have n: "n < 10" "unat c - 48 = n"
      by (simp_all add: decimal_value_def)
    from c(1) n(2) have "c = of_nat (48 + n)" by simp
    with Nil num_to_string_small [OF n(1)] show ?thesis by simp
  next
    case (Cons x ys)
    with ld have lead: "hd xs \<noteq> 0x30" by simp
    from Cons have ne: "xs \<noteq> []" by simp
    from ne dx lead have num: "decimal_numeral (decimal_value xs) xs"
      by (simp add: decimal_numeral_def)
    have pos: "decimal_value xs \<noteq> 0"
    proof
      assume "decimal_value xs = 0"
      from decimal_value_zero [OF dx this] ne have "hd xs = 0x30"
        by (cases xs) simp_all
      with lead show False by simp
    qed
    with vl have big: "\<not> n < 10" by simp
    from c(2) have dv: "n div 10 = decimal_value xs" and md: "n mod 10 = unat c - 48"
      by (simp_all add: vl [symmetric])
    from snoc.IH [OF num] dv have "xs = num_to_string (n div 10)" by simp
    moreover from c(1) md have "c = of_nat (48 + n mod 10)" by simp
    ultimately show ?thesis
      using num_to_string_large [OF big] by simp
  qed
qed

lemma indexOf_at_found:
  "indexOf_at t s k \<noteq> - 1 \<longleftrightarrow> (\<exists>pre suf. t = pre @ s @ suf)"
proof (induction t arbitrary: k)
  case Nil
  then show ?case by auto
next
  case (Cons c cs)
  show ?case
  proof (cases "prefix s (c # cs)")
    case True
    then obtain suf where "c # cs = s @ suf" by (auto simp: prefix_def)
    then have "c # cs = [] @ s @ suf" by simp
    then have "\<exists>pre suf. c # cs = pre @ s @ suf" by blast
    with True show ?thesis by simp
  next
    case False
    have "(\<exists>pre suf. c # cs = pre @ s @ suf) \<longleftrightarrow> (\<exists>pre suf. cs = pre @ s @ suf)"
    proof
      assume "\<exists>pre suf. c # cs = pre @ s @ suf"
      then obtain pre suf where eq: "c # cs = pre @ s @ suf" by blast
      show "\<exists>pre suf. cs = pre @ s @ suf"
      proof (cases pre)
        case Nil
        with eq have "prefix s (c # cs)" by (simp add: prefix_def)
        with False show ?thesis by simp
      next
        case (Cons a pre')
        with eq have "cs = pre' @ s @ suf" by simp
        then show ?thesis by blast
      qed
    next
      assume "\<exists>pre suf. cs = pre @ s @ suf"
      then obtain pre suf where "cs = pre @ s @ suf" by blast
      then have "c # cs = (c # pre) @ s @ suf" by simp
      then show "\<exists>pre suf. c # cs = pre @ s @ suf" by blast
    qed
    with False Cons.IH [of "Suc k"] show ?thesis by simp
  qed
qed

lemma indexOf_found: "indexOf t s \<noteq> - 1 \<longleftrightarrow> (\<exists>pre suf. t = pre @ s @ suf)"
  unfolding indexOf_def by (rule indexOf_at_found)

section \<open>Facts about updateDisplay\<close>

lemma forEach_pub_eq:
  "forEach_pub aType aTag ps v =
     (map (restyle aType aTag) ps, v + length (filter (entry_shown aType aTag) ps))"
  by (induction ps arbitrary: v) (simp_all add: entry_shown_def restyle_def Let_def)

lemma updateDisplay_eq:
  "updateDisplay s =
     Inr (s\<lparr>allPubs := map (restyle (activeType s) (activeTag s)) (allPubs s),
            countEl := map_option
              (textContent_update
                 (\<lambda>_. count_text (length (filter (entry_shown (activeType s) (activeTag s)) (allPubs s)))))
              (countEl s),
            clearBtn := map_option
              (clear_display_update
                 (\<lambda>_. if activeType s \<noteq> Some str_all \<or> activeTag s \<noteq> Some str_all
                      then str_inline_block else str_none))
              (clearBtn s)\<rparr>)"
  by (cases "countEl s"; cases "clearBtn s")
     (simp_all add: updateDisplay_def forEach_pub_eq truthy_def set_textContent_def
        set_clear_display_def)

lemma is_visible_restyle: "is_visible (restyle aType aTag p) \<longleftrightarrow> entry_shown aType aTag p"
  using str_none_nonempty by (auto simp: is_visible_def restyle_def)

lemma restyle_attrs:
  "data_type (restyle aType aTag p) = data_type p"
  "data_tags (restyle aType aTag p) = data_tags p"
  by (simp_all add: restyle_def)

lemma visible_restyle_comp: "is_visible \<circ> restyle aType aTag = entry_shown aType aTag"
  by (simp add: fun_eq_iff is_visible_restyle)

lemma entry_shown_all: "entry_shown (Some str_all) (Some str_all) p"
  by (simp add: entry_shown_def typeMatch_def tagMatch_def)

lemma restyle_restyle: "restyle aType aTag (restyle aType aTag p) = restyle aType aTag p"
  by (simp add: restyle_def entry_shown_def)

lemma filter_length_update:
  "i < length xs \<Longrightarrow> P y = P (xs ! i) \<Longrightarrow>
   length (filter P (xs[i := y])) = length (filter P xs)"
proof (induction xs arbitrary: i)
  case Nil
  then show ?case by simp
next
  case (Cons x xs)
  then show ?case by (cases i) simp_all
qed

lemma updateDisplay_without_count:
  "updateDisplay (without_count s) = map_sum id without_count (updateDisplay s)"
  by (simp add: updateDisplay_eq without_count_def)

lemma updateDisplay_without_clear:
  "updateDisplay (without_clear s) = map_sum id without_clear (updateDisplay s)"
  by (simp add: updateDisplay_eq without_clear_def)

section \<open>Facts about the handlers and the load\<close>

lemma reset_btn_reset_btn: "reset_btn (reset_btn b) = reset_btn b"
  by (simp add: reset_btn_def)

lemma clear_click_eq:
  "clear_click s =
     Inr (s\<lparr>activeType := Some str_all, activeTag := Some str_all,
            controls := map reset_btn (controls s),
            allPubs := map (restyle (Some str_all) (Some str_all)) (allPubs s),
            countEl := map_option (textContent_update (\<lambda>_. count_text (length (allPubs s))))
              (countEl s),
            clearBtn := map_option (clear_display_update (\<lambda>_. str_none)) (clearBtn s)\<rparr>)"
  by (simp add: clear_click_def updateDisplay_eq entry_shown_all)

lemma fire_total: "\<exists>s'. fire e s = Inr s'"
  by (cases e; cases "filterSection s")
     (simp_all add: type_btn_click_def tag_btn_click_def pub_tag_click_def clear_click_def
        updateDisplay_eq Let_def truthy_def scrollIntoView_def)

lemma fire_without_count:
  "fire e (without_count s) = map_sum id without_count (fire e s)"
  by (cases e; cases "filterSection s")
     (simp_all add: type_btn_click_def tag_btn_click_def pub_tag_click_def clear_click_def
        updateDisplay_eq Let_def truthy_def scrollIntoView_def without_count_def)

lemma fire_without_clear:
  "fire e (without_clear s) = map_sum id without_clear (fire e s)"
  by (cases e; cases "filterSection s")
     (simp_all add: type_btn_click_def tag_btn_click_def pub_tag_click_def clear_click_def
        updateDisplay_eq Let_def truthy_def scrollIntoView_def without_clear_def)

lemma init_total: "\<exists>s'. init d = Inr s'"
  by (cases "clear_filters_elem d")
     (simp_all add: init_def truthy_def addEventListener_def updateDisplay_eq)

lemma init_without_count:
  "init (d\<lparr>pub_count_elem := None\<rparr>) = map_sum id without_count (init d)"
  by (cases "clear_filters_elem d")
     (simp_all add: init_def truthy_def addEventListener_def updateDisplay_eq without_count_def)

lemma init_without_clear:
  "init (d\<lparr>clear_filters_elem := None\<rparr>) =
   map_sum id (\<lambda>s. (without_clear s)\<lparr>clearWired := False\<rparr>) (init d)"
  by (cases "clear_filters_elem d")
     (simp_all add: init_def truthy_def addEventListener_def updateDisplay_eq without_clear_def)

lemma init_fields:
  "init d = Inr s0 \<Longrightarrow>
   controls s0 = control_elems d \<and> pubTags s0 = pub_tag_elems d \<and>
   activeType s0 = Some str_all \<and> activeTag s0 = Some str_all"
  by (cases "clear_filters_elem d")
     (auto simp: init_def truthy_def addEventListener_def updateDisplay_eq)

section \<open>Facts about the marks\<close>

lemma btn_attrs_active: "btn_attrs (b\<lparr>active := x\<rparr>) = btn_attrs b"
  by (simp add: btn_attrs_def)

lemma btn_attrs_reset: "btn_attrs (reset_btn b) = btn_attrs b"
  by (simp add: btn_attrs_def reset_btn_def)

lemma map_btn_attrs_pick:
  assumes "i < length cs" and "\<And>b. btn_attrs (f b) = btn_attrs b"
  shows "map btn_attrs ((map f cs)[i := (map f cs ! i)\<lparr>active := True\<rparr>]) = map btn_attrs cs"
proof -
  have "map btn_attrs (map f cs) = map btn_attrs cs"
    by (simp add: assms(2))
  moreover have "btn_attrs ((map f cs ! i)\<lparr>active := True\<rparr>) = map btn_attrs cs ! i"
    using assms by (simp add: btn_attrs_active)
  ultimately show ?thesis
    by (simp only: map_update list_update_id)
qed

lemma attrs_filter:
  assumes "map btn_attrs cs' = map btn_attrs cs"
    and "\<And>b b'. btn_attrs b = btn_attrs b' \<Longrightarrow> Q b = Q b'"
  shows "map btn_attrs (filter Q cs') = map btn_attrs (filter Q cs)"
  using assms(1)
proof (induction cs arbitrary: cs')
  case Nil
  then show ?case by simp
next
  case (Cons b bs)
  from Cons.prems obtain c ds where cs': "cs' = c # ds" and c: "btn_attrs c = btn_attrs b"
    and ds: "map btn_attrs ds = map btn_attrs bs"
    by (cases cs') auto
  from Cons.IH [OF ds] assms(2) [OF c] c cs' show ?case by simp
qed

lemma attrs_filter_length:
  assumes "map btn_attrs cs' = map btn_attrs cs"
    and "\<And>b b'. btn_attrs b = btn_attrs b' \<Longrightarrow> P b = P b'"
  shows "length (filter P cs') = length (filter P cs)"
proof -
  from attrs_filter [OF assms] have "length (map btn_attrs (filter P cs')) =
      length (map btn_attrs (filter P cs))"
    by (simp only:)
  then show ?thesis by simp
qed

lemma attrs_list_all:
  assumes "map btn_attrs cs' = map btn_attrs cs"
    and "\<And>b b'. btn_attrs b = btn_attrs b' \<Longrightarrow> P b = P b'"
  shows "list_all P cs' = list_all P cs"
  using assms(1)
proof (induction cs arbitrary: cs')
  case Nil
  then show ?case by simp
next
  case (Cons b bs)
  from Cons.prems obtain c ds where cs': "cs' = c # ds" and c: "btn_attrs c = btn_attrs b"
    and ds: "map btn_attrs ds = map btn_attrs bs"
    by (cases cs') auto
  from Cons.IH [OF ds] assms(2) [OF c] cs' show ?case by simp
qed

lemma markup_ok_cong:
  assumes cs: "map btn_attrs (controls s') = map btn_attrs (controls s)"
    and pl: "pubTags s' = pubTags s"
  shows "markup_ok s' = markup_ok s"
proof -
  have ty: "map btn_attrs (type_controls s') = map btn_attrs (type_controls s)"
    unfolding type_controls_def by (rule attrs_filter [OF cs]) (simp add: btn_attrs_def)
  have tg: "map btn_attrs (tag_controls s') = map btn_attrs (tag_controls s)"
    unfolding tag_controls_def by (rule attrs_filter [OF cs]) (simp add: btn_attrs_def)
  have 0: "no_shared_control s' = no_shared_control s"
    unfolding no_shared_control_def by (rule attrs_list_all [OF cs]) (simp add: btn_attrs_def)
  have 1: "length (filter resets_active (type_controls s')) =
      length (filter resets_active (type_controls s))"
    by (rule attrs_filter_length [OF ty]) (simp add: btn_attrs_def resets_active_def)
  have 2: "length (filter resets_active (tag_controls s')) =
      length (filter resets_active (tag_controls s))"
    by (rule attrs_filter_length [OF tg]) (simp add: btn_attrs_def resets_active_def)
  have 3: "list_all (\<lambda>b. \<not> resets_active b \<or> btn_data_type b = Some str_all)
        (type_controls s') =
      list_all (\<lambda>b. \<not> resets_active b \<or> btn_data_type b = Some str_all) (type_controls s)"
    by (rule attrs_list_all [OF ty]) (simp add: btn_attrs_def resets_active_def)
  have 4: "list_all (\<lambda>b. \<not> resets_active b \<or> btn_data_tag b = Some str_all)
        (tag_controls s') =
      list_all (\<lambda>b. \<not> resets_active b \<or> btn_data_tag b = Some str_all) (tag_controls s)"
    by (rule attrs_list_all [OF tg]) (simp add: btn_attrs_def resets_active_def)
  have 5: "length (filter (\<lambda>b. btn_data_tag b = v) (tag_controls s')) =
      length (filter (\<lambda>b. btn_data_tag b = v) (tag_controls s))" for v
    by (rule attrs_filter_length [OF tg]) (simp add: btn_attrs_def)
  show ?thesis
    by (simp only: markup_ok_def pl 0 1 2 3 4 5)
qed

lemma updateDisplay_keeps:
  "\<exists>s'. updateDisplay s = Inr s' \<and> controls s' = controls s \<and> pubTags s' = pubTags s \<and>
     activeType s' = activeType s \<and> activeTag s' = activeTag s \<and>
     marks_match s' = marks_match s \<and> markup_ok s' = markup_ok s"
  by (simp add: updateDisplay_eq marks_match_def markup_ok_def type_controls_def
      tag_controls_def no_shared_control_def)

lemma list_all_filter_nth:
  "list_all P (filter Q xs) \<longleftrightarrow> (\<forall>j < length xs. Q (xs ! j) \<longrightarrow> P (xs ! j))"
  by (auto simp: list_all_iff in_set_conv_nth)

lemma unmark_none:
  assumes "\<And>b x. C (b\<lparr>active := x\<rparr>) = C b"
  shows "filter active (filter C (map (\<lambda>b. if C b then b\<lparr>active := False\<rparr> else b) cs)) = []"
  by (induction cs) (simp_all add: assms)

lemma one_active_pick:
  assumes "\<And>b x. C (b\<lparr>active := x\<rparr>) = C b"
  shows "i < length cs \<Longrightarrow> C (cs ! i) \<Longrightarrow>
   length (filter active (filter C
     ((map (\<lambda>b. if C b then b\<lparr>active := False\<rparr> else b) cs)
        [i := (map (\<lambda>b. if C b then b\<lparr>active := False\<rparr> else b) cs ! i)
           \<lparr>active := True\<rparr>]))) = 1"
proof (induction cs arbitrary: i)
  case Nil
  then show ?case by simp
next
  case (Cons b bs)
  show ?case
  proof (cases i)
    case 0
    with Cons.prems show ?thesis by (simp add: assms unmark_none [OF assms])
  next
    case (Suc j)
    with Cons.prems have "j < length bs" and "C (bs ! j)" by simp_all
    from Cons.IH [OF this] Suc show ?thesis by (simp add: assms)
  qed
qed

lemma active_pick_is:
  assumes "\<And>b x. C (b\<lparr>active := x\<rparr>) = C b" and "\<And>b x. f (b\<lparr>active := x\<rparr>) = f b"
    and "i < length cs"
  shows "list_all (\<lambda>b. \<not> active b \<or> f b = f (cs ! i)) (filter C
     ((map (\<lambda>b. if C b then b\<lparr>active := False\<rparr> else b) cs)
        [i := (map (\<lambda>b. if C b then b\<lparr>active := False\<rparr> else b) cs ! i)
           \<lparr>active := True\<rparr>]))"
  using assms(3) by (simp add: list_all_filter_nth nth_list_update assms(1,2))

lemma other_group_unmark:
  assumes "\<And>b x. D (b\<lparr>active := x\<rparr>) = D b"
  shows "list_all (\<lambda>b. \<not> (C b \<and> D b)) cs \<Longrightarrow>
   filter D (map (\<lambda>b. if C b then b\<lparr>active := False\<rparr> else b) cs) = filter D cs"
  by (induction cs) (auto simp: assms)

lemma other_group_pick:
  assumes "\<And>b x. D (b\<lparr>active := x\<rparr>) = D b"
  shows "list_all (\<lambda>b. \<not> (C b \<and> D b)) cs \<Longrightarrow> i < length cs \<Longrightarrow> C (cs ! i) \<Longrightarrow>
   filter D ((map (\<lambda>b. if C b then b\<lparr>active := False\<rparr> else b) cs)
        [i := (map (\<lambda>b. if C b then b\<lparr>active := False\<rparr> else b) cs ! i)
           \<lparr>active := True\<rparr>]) = filter D cs"
proof (induction cs arbitrary: i)
  case Nil
  then show ?case by simp
next
  case (Cons b bs)
  from Cons.prems(1) have rest: "list_all (\<lambda>b. \<not> (C b \<and> D b)) bs" by simp
  show ?case
  proof (cases i)
    case 0
    with Cons.prems other_group_unmark [OF assms rest] show ?thesis
      by (auto simp: assms)
  next
    case (Suc j)
    with Cons.prems have "j < length bs" and "C (bs ! j)" by simp_all
    from Cons.IH [OF rest this] Suc Cons.prems(1) show ?thesis by (auto simp: assms)
  qed
qed

lemma one_active_cond:
  "length (filter active (filter is_tag_btn
     (map (\<lambda>b. if is_tag_btn b
                then (if P b then b\<lparr>active := True\<rparr> else b\<lparr>active := False\<rparr>)
                else b) cs))) =
   length (filter P (filter is_tag_btn cs))"
  by (induction cs) simp_all

lemma active_cond_is:
  "list_all (\<lambda>b. \<not> active b \<or> btn_data_tag b = t) (filter is_tag_btn
     (map (\<lambda>b. if is_tag_btn b
                then (if btn_data_tag b = t then b\<lparr>active := True\<rparr> else b\<lparr>active := False\<rparr>)
                else b) cs))"
  by (induction cs) simp_all

lemma other_group_cond:
  "list_all (\<lambda>b. \<not> (is_type_btn b \<and> is_tag_btn b)) cs \<Longrightarrow>
   filter is_type_btn
     (map (\<lambda>b. if is_tag_btn b
                then (if P b then b\<lparr>active := True\<rparr> else b\<lparr>active := False\<rparr>)
                else b) cs) =
   filter is_type_btn cs"
  by (induction cs) auto

lemma one_active_reset:
  assumes "\<And>b x. C (b\<lparr>active := x\<rparr>) = C b" and "\<And>b. C b \<Longrightarrow> is_type_btn b \<or> is_tag_btn b"
  shows "length (filter active (filter C (map reset_btn cs))) =
   length (filter resets_active (filter C cs))"
proof (induction cs)
  case Nil
  then show ?case by simp
next
  case (Cons b bs)
  have c: "C (reset_btn b) = C b"
    by (simp add: reset_btn_def assms(1))
  have a: "C b \<Longrightarrow> active (reset_btn b) = resets_active b"
    using assms(2) [of b] by (auto simp: reset_btn_def resets_active_def)
  from Cons c a show ?case by simp
qed

lemma active_reset_is:
  assumes "\<And>b x. C (b\<lparr>active := x\<rparr>) = C b" and "\<And>b. C b \<Longrightarrow> is_type_btn b \<or> is_tag_btn b"
    and "\<And>b x. f (b\<lparr>active := x\<rparr>) = f b"
  shows "list_all (\<lambda>b. \<not> active b \<or> f b = v) (filter C (map reset_btn cs)) \<longleftrightarrow>
   list_all (\<lambda>b. \<not> resets_active b \<or> f b = v) (filter C cs)"
proof (induction cs)
  case Nil
  then show ?case by simp
next
  case (Cons b bs)
  have c: "C (reset_btn b) = C b"
    by (simp add: reset_btn_def assms(1))
  have a: "C b \<Longrightarrow> active (reset_btn b) = resets_active b"
    using assms(2) [of b] by (auto simp: reset_btn_def resets_active_def)
  have f: "f (reset_btn b) = f b"
    by (simp add: reset_btn_def assms(3))
  from Cons c a f show ?case by simp
qed

lemma type_btn_click_keeps:
  assumes "markup_ok s" and "marks_match s"
  shows "\<exists>s'. type_btn_click i s = Inr s' \<and> marks_match s' \<and> markup_ok s'"
proof (cases "i < length (controls s) \<and> is_type_btn (controls s ! i)")
  case False
  with assms show ?thesis by (auto simp: type_btn_click_def)
next
  case True
  then have i: "i < length (controls s)" and ty: "is_type_btn (controls s ! i)" by simp_all
  define un :: "btn \<Rightarrow> btn"
    where "un = (\<lambda>b. if is_type_btn b then b\<lparr>active := False\<rparr> else b)"
  define bs where "bs = (map un (controls s))[i := (map un (controls s) ! i)\<lparr>active := True\<rparr>]"
  define s1 where "s1 = s\<lparr>controls := bs, activeType := btn_data_type (bs ! i)\<rparr>"
  have call: "type_btn_click i s = updateDisplay s1"
    using True by (simp add: type_btn_click_def Let_def s1_def bs_def un_def)
  have sel: "btn_data_type (bs ! i) = btn_data_type (controls s ! i)"
    using i by (simp add: bs_def un_def)
  from assms(1) have ns: "list_all (\<lambda>b. \<not> (is_type_btn b \<and> is_tag_btn b)) (controls s)"
    by (simp add: markup_ok_def no_shared_control_def)
  have one: "length (filter active (filter is_type_btn bs)) = 1"
    using one_active_pick [where C = is_type_btn, OF _ i ty] by (simp add: bs_def un_def)
  have val: "list_all (\<lambda>b. \<not> active b \<or> btn_data_type b = btn_data_type (controls s ! i))
      (filter is_type_btn bs)"
    using active_pick_is [where C = is_type_btn and f = btn_data_type, OF _ _ i]
    by (simp add: bs_def un_def)
  have oth: "filter is_tag_btn bs = filter is_tag_btn (controls s)"
    using other_group_pick [where C = is_type_btn and D = is_tag_btn, OF _ ns i ty]
    by (simp add: bs_def un_def)
  have m: "marks_match s1"
    using assms(2) one val
    by (simp add: marks_match_def type_controls_def tag_controls_def s1_def sel oth)
  have "map btn_attrs bs = map btn_attrs (controls s)"
    unfolding bs_def by (rule map_btn_attrs_pick [OF i]) (simp add: un_def btn_attrs_def)
  then have "markup_ok s1 = markup_ok s"
    by (intro markup_ok_cong) (simp_all add: s1_def)
  with assms(1) m updateDisplay_keeps [of s1] call show ?thesis by auto
qed

lemma tag_btn_click_keeps:
  assumes "markup_ok s" and "marks_match s"
  shows "\<exists>s'. tag_btn_click i s = Inr s' \<and> marks_match s' \<and> markup_ok s'"
proof (cases "i < length (controls s) \<and> is_tag_btn (controls s ! i)")
  case False
  with assms show ?thesis by (auto simp: tag_btn_click_def)
next
  case True
  then have i: "i < length (controls s)" and tg: "is_tag_btn (controls s ! i)" by simp_all
  define un :: "btn \<Rightarrow> btn"
    where "un = (\<lambda>b. if is_tag_btn b then b\<lparr>active := False\<rparr> else b)"
  define bs where "bs = (map un (controls s))[i := (map un (controls s) ! i)\<lparr>active := True\<rparr>]"
  define s1 where "s1 = s\<lparr>controls := bs, activeTag := btn_data_tag (bs ! i)\<rparr>"
  have call: "tag_btn_click i s = updateDisplay s1"
    using True by (simp add: tag_btn_click_def Let_def s1_def bs_def un_def)
  have sel: "btn_data_tag (bs ! i) = btn_data_tag (controls s ! i)"
    using i by (simp add: bs_def un_def)
  from assms(1) have ns: "list_all (\<lambda>b. \<not> (is_tag_btn b \<and> is_type_btn b)) (controls s)"
    by (simp add: markup_ok_def no_shared_control_def conj_commute)
  have one: "length (filter active (filter is_tag_btn bs)) = 1"
    using one_active_pick [where C = is_tag_btn, OF _ i tg] by (simp add: bs_def un_def)
  have val: "list_all (\<lambda>b. \<not> active b \<or> btn_data_tag b = btn_data_tag (controls s ! i))
      (filter is_tag_btn bs)"
    using active_pick_is [where C = is_tag_btn and f = btn_data_tag, OF _ _ i]
    by (simp add: bs_def un_def)
  have oth: "filter is_type_btn bs = filter is_type_btn (controls s)"
    using other_group_pick [where C = is_tag_btn and D = is_type_btn, OF _ ns i tg]
    by (simp add: bs_def un_def)
  have m: "marks_match s1"
    using assms(2) one val
    by (simp add: marks_match_def type_controls_def tag_controls_def s1_def sel oth)
  have "map btn_attrs bs = map btn_attrs (controls s)"
    unfolding bs_def by (rule map_btn_attrs_pick [OF i]) (simp add: un_def btn_attrs_def)
  then have "markup_ok s1 = markup_ok s"
    by (intro markup_ok_cong) (simp_all add: s1_def)
  with assms(1) m updateDisplay_keeps [of s1] call show ?thesis by auto
qed

lemma pub_tag_click_eq:
  assumes "k < length (pubTags s)"
  shows "\<exists>s2. updateDisplay (s\<lparr>controls :=
        map (\<lambda>b. if is_tag_btn b
                  then (if btn_data_tag b = pubTags s ! k then b\<lparr>active := True\<rparr>
                        else b\<lparr>active := False\<rparr>)
                  else b) (controls s),
      activeTag := pubTags s ! k\<rparr>) = Inr s2 \<and>
    pub_tag_click k s = Inr (s2\<lparr>filterSection :=
      map_option (in_view_update (\<lambda>_. True)) (filterSection s2)\<rparr>)"
  using assms
  by (cases "filterSection s")
     (simp_all add: pub_tag_click_def Let_def updateDisplay_eq truthy_def scrollIntoView_def)

lemma pub_tag_click_keeps:
  assumes "markup_ok s" and "marks_match s"
  shows "\<exists>s'. pub_tag_click k s = Inr s' \<and> marks_match s' \<and> markup_ok s'"
proof (cases "k < length (pubTags s)")
  case False
  with assms show ?thesis by (simp add: pub_tag_click_def)
next
  case True
  define tag where "tag = pubTags s ! k"
  define bs where "bs = map (\<lambda>b. if is_tag_btn b
      then (if btn_data_tag b = tag then b\<lparr>active := True\<rparr> else b\<lparr>active := False\<rparr>)
      else b) (controls s)"
  define s1 where "s1 = s\<lparr>controls := bs, activeTag := tag\<rparr>"
  from pub_tag_click_eq [OF True] obtain s2 where
    upd: "updateDisplay s1 = Inr s2"
    and call: "pub_tag_click k s = Inr (s2\<lparr>filterSection :=
      map_option (in_view_update (\<lambda>_. True)) (filterSection s2)\<rparr>)"
    unfolding s1_def bs_def tag_def by blast
  from updateDisplay_keeps [of s1] upd have k1: "marks_match s2 = marks_match s1"
    and k2: "markup_ok s2 = markup_ok s1"
    by simp_all
  define s3 where "s3 = s2\<lparr>filterSection :=
      map_option (in_view_update (\<lambda>_. True)) (filterSection s2)\<rparr>"
  have k3: "marks_match s3 = marks_match s2" "markup_ok s3 = markup_ok s2"
    by (simp_all add: s3_def marks_match_def markup_ok_def type_controls_def
        tag_controls_def no_shared_control_def)
  from assms(1) have ns: "list_all (\<lambda>b. \<not> (is_type_btn b \<and> is_tag_btn b)) (controls s)"
    by (simp add: markup_ok_def no_shared_control_def)
  from assms(1) True
  have one: "length (filter (\<lambda>b. btn_data_tag b = tag) (filter is_tag_btn (controls s))) = 1"
    by (simp add: markup_ok_def list_all_length tag_def tag_controls_def)
  have "length (filter active (filter is_tag_btn bs)) = 1"
    unfolding bs_def one_active_cond by (rule one)
  moreover have "list_all (\<lambda>b. \<not> active b \<or> btn_data_tag b = tag) (filter is_tag_btn bs)"
    unfolding bs_def by (rule active_cond_is)
  moreover have "filter is_type_btn bs = filter is_type_btn (controls s)"
    unfolding bs_def by (rule other_group_cond [OF ns])
  ultimately have m: "marks_match s1"
    using assms(2) by (simp add: marks_match_def type_controls_def tag_controls_def s1_def)
  have "map btn_attrs bs = map btn_attrs (controls s)"
    unfolding bs_def by (simp add: btn_attrs_def)
  then have "markup_ok s1 = markup_ok s"
    by (intro markup_ok_cong) (simp_all add: s1_def)
  with assms(1) m k1 k2 k3 call show ?thesis by (simp add: s3_def)
qed

lemma clear_click_keeps:
  assumes "markup_ok s"
  shows "\<exists>s'. clear_click s = Inr s' \<and> marks_match s' \<and> markup_ok s'"
proof -
  define s1 where "s1 = s\<lparr>activeType := Some str_all, activeTag := Some str_all,
      controls := map reset_btn (controls s)\<rparr>"
  have call: "clear_click s = updateDisplay s1"
    by (simp add: clear_click_def s1_def)
  have t1: "length (filter active (filter is_type_btn (map reset_btn cs))) =
      length (filter resets_active (filter is_type_btn cs))" for cs
    by (rule one_active_reset [where C = is_type_btn]) simp_all
  have t2: "list_all (\<lambda>b. \<not> active b \<or> btn_data_type b = v)
        (filter is_type_btn (map reset_btn cs)) \<longleftrightarrow>
      list_all (\<lambda>b. \<not> resets_active b \<or> btn_data_type b = v) (filter is_type_btn cs)"
    for v cs
    by (rule active_reset_is [where C = is_type_btn]) simp_all
  have g1: "length (filter active (filter is_tag_btn (map reset_btn cs))) =
      length (filter resets_active (filter is_tag_btn cs))" for cs
    by (rule one_active_reset [where C = is_tag_btn]) simp_all
  have g2: "list_all (\<lambda>b. \<not> active b \<or> btn_data_tag b = v)
        (filter is_tag_btn (map reset_btn cs)) \<longleftrightarrow>
      list_all (\<lambda>b. \<not> resets_active b \<or> btn_data_tag b = v) (filter is_tag_btn cs)"
    for v cs
    by (rule active_reset_is [where C = is_tag_btn]) simp_all
  have c1: "controls s1 = map reset_btn (controls s)"
    and a1: "activeType s1 = Some str_all" and a2: "activeTag s1 = Some str_all"
    by (simp_all add: s1_def)
  from assms have m: "marks_match s1"
    unfolding marks_match_def markup_ok_def type_controls_def tag_controls_def
      c1 a1 a2 t1 t2 g1 g2
    by simp
  have "map btn_attrs (controls s1) = map btn_attrs (controls s)"
    by (simp add: s1_def btn_attrs_reset)
  moreover have "pubTags s1 = pubTags s"
    by (simp add: s1_def)
  ultimately have "markup_ok s1 = markup_ok s"
    by (rule markup_ok_cong)
  with assms m updateDisplay_keeps [of s1] call show ?thesis by auto
qed

lemma fire_keeps:
  assumes "markup_ok s" and "marks_match s"
  shows "\<exists>s'. fire e s = Inr s' \<and> marks_match s' \<and> markup_ok s'"
proof (cases e)
  case (TypeBtnClick i)
  with type_btn_click_keeps [OF assms, of i] show ?thesis by simp
next
  case (TagBtnClick i)
  with tag_btn_click_keeps [OF assms, of i] show ?thesis by simp
next
  case (PubTagClick k)
  with pub_tag_click_keeps [OF assms, of k] show ?thesis by simp
next
  case ClearClick
  with clear_click_keeps [OF assms(1)] assms show ?thesis by simp
qed

section \<open>Facts about the example pages\<close>

lemma ex_tag0: "\<not> (\<exists>pre suf. ascii ''ai,policy'' = pre @ ascii ''tiktok'' @ suf)"
  unfolding indexOf_found [symmetric] by (simp add: indexOf_def ascii_def)

lemma ex_tag2: "\<exists>pre suf. ascii ''tiktok'' = pre @ ascii ''tiktok'' @ suf"
  unfolding indexOf_found [symmetric] by (simp add: indexOf_def ascii_def)

lemma lit_neq:
  "ascii ''paper'' \<noteq> str_all" "ascii ''tiktok'' \<noteq> str_all"
  "ascii ''article'' \<noteq> ascii ''paper''"
  "ascii ''ai,policy'' \<noteq> []" "ascii ''tiktok'' \<noteq> []"
  by (simp_all add: ascii_def str_all_def)

lemma tag_lit_neq:
  "ascii ''paper'' \<noteq> str_all" "ascii ''article'' \<noteq> str_all"
  "ascii ''ai'' \<noteq> str_all" "ascii ''policy'' \<noteq> str_all" "ascii ''tiktok'' \<noteq> str_all"
  "ascii ''methods'' \<noteq> str_all"
  "ascii ''ai'' \<noteq> ascii ''policy''" "ascii ''ai'' \<noteq> ascii ''tiktok''"
  "ascii ''policy'' \<noteq> ascii ''tiktok''"
  "ascii ''ai'' \<noteq> ascii ''methods''" "ascii ''policy'' \<noteq> ascii ''methods''"
  "ascii ''tiktok'' \<noteq> ascii ''methods''"
  by (simp_all add: ascii_def str_all_def)

lemma example_page_sel:
  "activeType example_page = Some (ascii ''paper'')"
  "activeTag example_page = Some (ascii ''tiktok'')"
  "allPubs example_page =
     [\<lparr>data_type = Some (ascii ''paper''), data_tags = Some (ascii ''ai,policy''),
          style_display = []\<rparr>,
         \<lparr>data_type = Some (ascii ''article''), data_tags = Some (ascii ''policy''),
          style_display = []\<rparr>,
         \<lparr>data_type = Some (ascii ''paper''), data_tags = Some (ascii ''tiktok''),
          style_display = []\<rparr>]"
  by (simp_all add: example_page_def example_doc_def)

lemma example_page_opt:
  "countEl example_page = Some \<lparr>textContent = []\<rparr>"
  "clearBtn example_page = Some \<lparr>clear_display = str_none\<rparr>"
  by (simp_all add: example_page_def example_doc_def)

lemma example_shown:
  "\<not> entry_shown (Some (ascii ''paper'')) (Some (ascii ''tiktok''))
       \<lparr>data_type = Some (ascii ''paper''), data_tags = Some (ascii ''ai,policy''),
        style_display = d\<rparr>"
  "\<not> entry_shown (Some (ascii ''paper'')) (Some (ascii ''tiktok''))
       \<lparr>data_type = Some (ascii ''article''), data_tags = Some (ascii ''policy''),
        style_display = d\<rparr>"
  "entry_shown (Some (ascii ''paper'')) (Some (ascii ''tiktok''))
       \<lparr>data_type = Some (ascii ''paper''), data_tags = Some (ascii ''tiktok''),
        style_display = d\<rparr>"
  by (simp_all add: entry_shown_def typeMatch_def tagMatch_def js_or_def ToString_def
      indexOf_def ascii_def str_all_def)

lemma count_text_1: "count_text (Suc 0) = ascii ''1 publication''"
  by (simp add: count_text_def num_to_string.simps ascii_def)

lemma updateDisplay_example: "updateDisplay example_page = Inr example_page_shown"
  by (simp add: updateDisplay_eq example_page_shown_def example_page_sel example_page_opt
      restyle_def example_shown count_text_1 lit_neq)

lemma example_doc_controls:
  "control_elems example_doc =
     [type_btn str_all True, type_btn (ascii ''paper'') False,
      type_btn (ascii ''article'') False,
      tag_btn str_all True, tag_btn (ascii ''ai'') False, tag_btn (ascii ''policy'') False,
      tag_btn (ascii ''tiktok'') False]"
  "pub_tag_elems example_doc =
     [Some (ascii ''ai''), Some (ascii ''policy''), Some (ascii ''policy''),
      Some (ascii ''tiktok'')]"
  by (simp_all add: example_doc_def)

lemma example_doc_markup:
  assumes "controls s = control_elems example_doc"
    and "pubTags s = pub_tag_elems example_doc"
  shows "markup_ok s"
  using assms
  by (simp add: markup_ok_def no_shared_control_def type_controls_def tag_controls_def
      resets_active_def example_doc_controls type_btn_def tag_btn_def
      tag_lit_neq tag_lit_neq [symmetric])

lemma example_doc_marks:
  assumes "controls s = control_elems example_doc"
    and "activeType s = Some str_all" and "activeTag s = Some str_all"
  shows "marks_match s"
  using assms
  by (simp add: marks_match_def type_controls_def tag_controls_def example_doc_controls
      type_btn_def tag_btn_def)

lemma example_page_controls:
  "controls example_page =
     [type_btn str_all False, type_btn (ascii ''paper'') True,
      type_btn (ascii ''article'') False,
      tag_btn str_all False, tag_btn (ascii ''ai'') False, tag_btn (ascii ''policy'') False,
      tag_btn (ascii ''tiktok'') True]"
  "pubTags example_page =
     [Some (ascii ''ai''), Some (ascii ''policy''), Some (ascii ''policy''),
      Some (ascii ''tiktok'')]"
  by (simp_all add: example_page_def example_doc_def)

lemma count_text_small:
  "count_text 0 = ascii ''0 publications''"
  "count_text (Suc 0) = ascii ''1 publication''"
  "count_text (Suc (Suc (Suc 0))) = ascii ''3 publications''"
proof -
  show "count_text 0 = ascii ''0 publications''"
    by (simp add: count_text_def num_to_string.simps ascii_def)
  show "count_text (Suc 0) = ascii ''1 publication''"
    by (simp add: count_text_def num_to_string.simps ascii_def)
  have "count_text 3 = ascii ''3 publications''"
    by (simp add: count_text_def num_to_string.simps ascii_def)
  then show "count_text (Suc (Suc (Suc 0))) = ascii ''3 publications''"
    by (simp add: numeral_3_eq_3)
qed

section \<open>Claims\<close>

text \<open>
  C1.  For every selection \<open>(activeType, activeTag)\<close> and every publication entry, after
  \<open>updateDisplay\<close> has run the entry is visible if and only if (\<open>activeType\<close> is \<open>"all"\<close> or
  equals the entry's \<open>data-type\<close>) and (\<open>activeTag\<close> is \<open>"all"\<close> or occurs as a substring of
  the entry's \<open>data-tags\<close> string).  The run returns, and changes neither the selection
  nor the entries' attributes.  The tags string of an entry without the attribute is the
  empty string, and a selection that is \<open>null\<close> is looked for as the string \<open>null\<close>.
\<close>

theorem updateDisplay_visible_iff:
  "\<exists>s'. updateDisplay s = Inr s' \<and>
     activeType s' = activeType s \<and> activeTag s' = activeTag s \<and>
     length (allPubs s') = length (allPubs s) \<and>
     (\<forall>i < length (allPubs s).
        data_type (allPubs s' ! i) = data_type (allPubs s ! i) \<and>
        data_tags (allPubs s' ! i) = data_tags (allPubs s ! i) \<and>
        (is_visible (allPubs s' ! i) \<longleftrightarrow>
           (activeType s = Some str_all \<or> data_type (allPubs s ! i) = activeType s) \<and>
           (activeTag s = Some str_all \<or>
            (\<exists>pre suf. js_or (data_tags (allPubs s ! i)) [] = pre @ ToString (activeTag s) @ suf))))"
  by (simp add: updateDisplay_eq is_visible_restyle restyle_attrs entry_shown_def
      typeMatch_def tagMatch_def indexOf_found)

theorem updateDisplay_visible_iff_witness:
  "\<exists>s'. updateDisplay example_page = Inr s' \<and>
     \<not> is_visible (allPubs s' ! 0) \<and> \<not> is_visible (allPubs s' ! 1) \<and>
     is_visible (allPubs s' ! 2)"
proof -
  from updateDisplay_visible_iff [of example_page]
  obtain s' where r: "updateDisplay example_page = Inr s'"
    and v: "\<And>i. i < length (allPubs example_page) \<Longrightarrow>
        (is_visible (allPubs s' ! i) \<longleftrightarrow>
           (activeType example_page = Some str_all \<or>
            data_type (allPubs example_page ! i) = activeType example_page) \<and>
           (activeTag example_page = Some str_all \<or>
            (\<exists>pre suf. js_or (data_tags (allPubs example_page ! i)) [] =
               pre @ ToString (activeTag example_page) @ suf)))"
    by blast
  have "\<not> is_visible (allPubs s' ! 0)"
    using v [of 0] ex_tag0 by (simp add: example_page_sel lit_neq js_or_def ToString_def)
  moreover have "\<not> is_visible (allPubs s' ! 1)"
    using v [of 1] by (simp add: example_page_sel lit_neq js_or_def ToString_def)
  moreover have "is_visible (allPubs s' ! 2)"
    using v [of 2] ex_tag2 by (simp add: example_page_sel lit_neq js_or_def ToString_def)
  ultimately show ?thesis using r by blast
qed

text \<open>
  C2.  After every run of \<open>updateDisplay\<close>, when the count node exists, its text is the
  decimal numeral of the number \<open>n\<close> of visible entries followed by \<open>" publication"\<close>
  when \<open>n = 1\<close> and by \<open>" publications"\<close> otherwise.  The number is counted on the
  entries as the run leaves them, and the numeral is said by \<open>decimal_numeral\<close>, which
  fixes the string (\<open>decimal_numeral_unique\<close>).
\<close>

theorem updateDisplay_count_text:
  "countEl s = Some el \<Longrightarrow>
   \<exists>s' el' ds. updateDisplay s = Inr s' \<and> countEl s' = Some el' \<and>
     decimal_numeral (length (filter is_visible (allPubs s'))) ds \<and>
     textContent el' =
       (if length (filter is_visible (allPubs s')) = 1
        then ds @ ascii '' publication'' else ds @ ascii '' publications'')"
proof -
  assume c: "countEl s = Some el"
  let ?n = "length (filter (entry_shown (activeType s) (activeTag s)) (allPubs s))"
  have "count_text ?n =
      (if ?n = 1 then num_to_string ?n @ ascii '' publication''
       else num_to_string ?n @ ascii '' publications'')"
    by (simp add: count_text_def ascii_def)
  with c num_to_string_numeral [of ?n] show ?thesis
    by (auto simp: updateDisplay_eq visible_restyle_comp)
qed

theorem updateDisplay_count_text_witness:
  "(\<exists>s' el'. updateDisplay example_page = Inr s' \<and> countEl s' = Some el' \<and>
      length (filter is_visible (allPubs s')) = 1 \<and>
      textContent el' = ascii ''1 publication'') \<and>
   (\<exists>s' el'. updateDisplay twelve_page = Inr s' \<and> countEl s' = Some el' \<and>
      length (filter is_visible (allPubs s')) = 12 \<and>
      textContent el' = ascii ''12 publications'')"
proof -
  have n1: "num_to_string 1 = ascii ''1''" and n12: "num_to_string 12 = ascii ''12''"
    by (simp_all add: num_to_string.simps ascii_def)
  have c1: "countEl example_page = Some \<lparr>textContent = []\<rparr>"
    by (rule example_page_opt)
  have c12: "countEl twelve_page = Some \<lparr>textContent = []\<rparr>"
    by (simp add: twelve_page_def example_page_opt)
  from updateDisplay_count_text [OF c1] obtain s1 e1 d1 where
    r1: "updateDisplay example_page = Inr s1" "countEl s1 = Some e1"
    and d1: "decimal_numeral (length (filter is_visible (allPubs s1))) d1"
    and t1: "textContent e1 =
       (if length (filter is_visible (allPubs s1)) = 1
        then d1 @ ascii '' publication'' else d1 @ ascii '' publications'')"
    by blast
  from r1(1) have l1: "length (filter is_visible (allPubs s1)) = 1"
    by (auto simp: updateDisplay_example example_page_shown_def is_visible_def
        str_none_nonempty str_none_nonempty [symmetric])
  from decimal_numeral_unique [OF d1] l1 n1 have "d1 = ascii ''1''" by simp
  with t1 l1 have x1: "textContent e1 = ascii ''1 publication''"
    by (simp add: ascii_def)
  from updateDisplay_count_text [OF c12] obtain s2 e2 d2 where
    r2: "updateDisplay twelve_page = Inr s2" "countEl s2 = Some e2"
    and d2: "decimal_numeral (length (filter is_visible (allPubs s2))) d2"
    and t2: "textContent e2 =
       (if length (filter is_visible (allPubs s2)) = 1
        then d2 @ ascii '' publication'' else d2 @ ascii '' publications'')"
    by blast
  from r2(1) have l2: "length (filter is_visible (allPubs s2)) = 12"
    by (auto simp: updateDisplay_eq twelve_page_def is_visible_restyle entry_shown_all)
  from decimal_numeral_unique [OF d2] l2 n12 have "d2 = ascii ''12''" by simp
  with t2 l2 have x2: "textContent e2 = ascii ''12 publications''"
    by (simp add: ascii_def)
  from r1 l1 x1 r2 l2 x2 show ?thesis by blast
qed

text \<open>
  C3.  After every run of \<open>updateDisplay\<close>, when the clear control exists, it is shown
  (display \<open>inline-block\<close>) if and only if \<open>activeType\<close> is not \<open>"all"\<close> or \<open>activeTag\<close> is not
  \<open>"all"\<close>, and hidden (display \<open>none\<close>) otherwise.  The run leaves both selections as
  they were.
\<close>

theorem updateDisplay_clear_shown:
  "clearBtn s = Some c \<Longrightarrow>
   \<exists>s' c'. updateDisplay s = Inr s' \<and> clearBtn s' = Some c' \<and>
     activeType s' = activeType s \<and> activeTag s' = activeTag s \<and>
     (clear_shown c' \<longleftrightarrow> activeType s' \<noteq> Some str_all \<or> activeTag s' \<noteq> Some str_all) \<and>
     clear_display c' = (if clear_shown c' then str_inline_block else str_none)"
  by (simp add: updateDisplay_eq clear_shown_def str_inline_block_neq)

theorem updateDisplay_clear_shown_witness:
  "\<exists>s' c'. updateDisplay example_page = Inr s' \<and> clearBtn s' = Some c' \<and>
     activeType s' = Some (ascii ''paper'') \<and> clear_shown c' \<and>
     clear_display c' = str_inline_block"
  using updateDisplay_clear_shown [of example_page "\<lparr>clear_display = str_none\<rparr>"]
  by (auto simp: example_page_opt example_page_sel lit_neq lit_neq [symmetric])

text \<open>
  C4.  The clear handler is idempotent: from every state it returns a state on which it
  returns that same state again, in every component, so that two clicks on the clear
  control leave what one click leaves.  That state has both selections \<open>"all"\<close> and
  every entry visible, and the clear control, when the page has one, is hidden.
\<close>

theorem clear_click_idempotent:
  "\<exists>s'. clear_click s = Inr s' \<and> clear_click s' = Inr s' \<and>
     activeType s' = Some str_all \<and> activeTag s' = Some str_all \<and>
     length (allPubs s') = length (allPubs s) \<and> list_all is_visible (allPubs s') \<and>
     (\<forall>c. clearBtn s = Some c \<longrightarrow> (\<exists>c'. clearBtn s' = Some c' \<and> \<not> clear_shown c')) \<and>
     run [ClearClick, ClearClick] s = run [ClearClick] s"
proof -
  have vis: "list_all is_visible (map (restyle (Some str_all) (Some str_all)) ps)" for ps
    by (simp add: list_all_iff is_visible_restyle entry_shown_all)
  have mo1: "map_option (textContent_update (\<lambda>_. t)) (map_option (textContent_update (\<lambda>_. t)) x)
      = map_option (textContent_update (\<lambda>_. t)) x" for t x
    by (cases x) simp_all
  have mo2: "map_option (clear_display_update (\<lambda>_. t))
       (map_option (clear_display_update (\<lambda>_. t)) x)
      = map_option (clear_display_update (\<lambda>_. t)) x" for t x
    by (cases x) simp_all
  have twice: "clear_click s = Inr s' \<Longrightarrow> clear_click s' = Inr s'" for s'
    by (auto simp: clear_click_eq restyle_restyle reset_btn_reset_btn mo1 mo2 comp_def)
  have wired: "clear_click s = Inr s' \<Longrightarrow> clearWired s' = clearWired s" for s'
    by (auto simp: clear_click_eq)
  have "run [ClearClick, ClearClick] s = run [ClearClick] s"
  proof (cases "clearWired s")
    case True
    obtain s' where c: "clear_click s = Inr s'" by (simp add: clear_click_eq)
    with True twice [OF c] wired [OF c] show ?thesis by simp
  next
    case False
    then show ?thesis by simp
  qed
  then show ?thesis
    using twice vis by (auto simp: clear_click_eq clear_shown_def)
qed

theorem clear_click_idempotent_witness:
  "\<exists>s'. clear_click example_page = Inr s' \<and> clear_click s' = Inr s' \<and>
     activeType s' = Some str_all \<and> activeTag s' = Some str_all \<and>
     length (allPubs s') = 3 \<and> list_all is_visible (allPubs s') \<and>
     (\<exists>c'. clearBtn s' = Some c' \<and> \<not> clear_shown c')"
  using clear_click_idempotent [of example_page]
  by (auto simp: example_page_opt example_page_sel)

text \<open>
  C5 (as the code has it).  For every pill and every prior state, the handler of the
  pill sets \<open>activeTag\<close> to the pill's \<open>data-tag\<close> and leaves \<open>activeType\<close> as it was.  It
  changes no control that is not a tag control, and it marks a tag control exactly when
  the control's \<open>data-tag\<close> is that of the pill; so the type controls, their marks
  included, are as they were whenever no control has both classes.
\<close>

theorem pub_tag_click_frame:
  "k < length (pubTags s) \<Longrightarrow>
   \<exists>s'. pub_tag_click k s = Inr s' \<and> activeTag s' = pubTags s ! k \<and>
     activeType s' = activeType s \<and> length (controls s') = length (controls s) \<and>
     (\<forall>j < length (controls s).
        \<not> is_tag_btn (controls s ! j) \<longrightarrow> controls s' ! j = controls s ! j) \<and>
     (\<forall>j < length (controls s).
        is_tag_btn (controls s ! j) \<longrightarrow>
          btn_attrs (controls s' ! j) = btn_attrs (controls s ! j) \<and>
          (active (controls s' ! j) \<longleftrightarrow> btn_data_tag (controls s ! j) = pubTags s ! k)) \<and>
     (no_shared_control s \<longrightarrow> type_controls s' = type_controls s)"
proof -
  assume k: "k < length (pubTags s)"
  from pub_tag_click_eq [OF k] updateDisplay_keeps
  obtain s2 where upd: "updateDisplay (s\<lparr>controls :=
        map (\<lambda>b. if is_tag_btn b
                  then (if btn_data_tag b = pubTags s ! k then b\<lparr>active := True\<rparr>
                        else b\<lparr>active := False\<rparr>)
                  else b) (controls s),
      activeTag := pubTags s ! k\<rparr>) = Inr s2"
    and call: "pub_tag_click k s = Inr (s2\<lparr>filterSection :=
      map_option (in_view_update (\<lambda>_. True)) (filterSection s2)\<rparr>)"
    by blast
  from updateDisplay_keeps [of "s\<lparr>controls :=
        map (\<lambda>b. if is_tag_btn b
                  then (if btn_data_tag b = pubTags s ! k then b\<lparr>active := True\<rparr>
                        else b\<lparr>active := False\<rparr>)
                  else b) (controls s),
      activeTag := pubTags s ! k\<rparr>"] upd
  have cs: "controls s2 = map (\<lambda>b. if is_tag_btn b
                  then (if btn_data_tag b = pubTags s ! k then b\<lparr>active := True\<rparr>
                        else b\<lparr>active := False\<rparr>)
                  else b) (controls s)"
    and sel: "activeTag s2 = pubTags s ! k" "activeType s2 = activeType s"
    by simp_all
  have ty: "no_shared_control s \<Longrightarrow> filter is_type_btn (controls s2) = filter is_type_btn (controls s)"
    unfolding cs no_shared_control_def by (rule other_group_cond)
  from call cs sel ty show ?thesis
    by (simp add: type_controls_def btn_attrs_def)
qed

theorem pub_tag_click_frame_witness:
  "\<exists>s'. pub_tag_click 0 example_page = Inr s' \<and> activeTag s' = Some (ascii ''ai'') \<and>
     activeType s' = Some (ascii ''paper'') \<and> no_shared_control example_page \<and>
     type_controls s' = type_controls example_page \<and>
     map active (type_controls s') = [False, True, False]"
proof -
  have ns: "no_shared_control example_page"
    by (simp add: no_shared_control_def example_page_controls type_btn_def tag_btn_def)
  have "map active (type_controls example_page) = [False, True, False]"
    by (simp add: type_controls_def example_page_controls type_btn_def tag_btn_def)
  with pub_tag_click_frame [of 0 example_page] ns show ?thesis
    by (auto simp: example_page_sel example_page_controls)
qed

theorem pub_tag_click_frame_counterexample:
  "init shared_doc = Inr shared_page \<and>
   pub_tag_click 0 shared_page = Inr shared_page_after \<and>
   map active (type_controls shared_page) = [True, False] \<and>
   map active (type_controls shared_page_after) = [False, False] \<and>
   type_controls shared_page_after \<noteq> type_controls shared_page"
proof -
  have sh: "entry_shown (Some str_all) (Some (ascii ''ai'')) p \<longleftrightarrow>
      indexOf (js_or (data_tags p) []) (ascii ''ai'') \<noteq> - 1" for p
    by (simp add: entry_shown_def typeMatch_def tagMatch_def ToString_def tag_lit_neq)
  have idx: "indexOf (ascii ''ai,policy'') (ascii ''ai'') = 0"
    "indexOf (ascii ''policy'') (ascii ''ai'') = - 1"
    "indexOf (ascii ''tiktok'') (ascii ''ai'') = - 1"
    by (simp_all add: indexOf_def ascii_def)
  have ne: "ascii ''ai,policy'' \<noteq> []" "ascii ''policy'' \<noteq> []" "ascii ''tiktok'' \<noteq> []"
    by (simp_all add: ascii_def)
  have ld: "init shared_doc = Inr shared_page"
    by (simp add: init_def shared_doc_def shared_page_def example_doc_def truthy_def
        addEventListener_def updateDisplay_eq restyle_def entry_shown_all count_text_small)
  have cl: "pub_tag_click 0 shared_page = Inr shared_page_after"
    by (simp add: pub_tag_click_def shared_page_def shared_page_after_def
        example_doc_def shared_all_def type_btn_def tag_btn_def
        Let_def truthy_def scrollIntoView_def updateDisplay_eq restyle_def sh idx ne js_or_def
        count_text_small tag_lit_neq tag_lit_neq [symmetric])
  have before: "map active (type_controls shared_page) = [True, False]"
    by (simp add: type_controls_def shared_page_def shared_all_def type_btn_def tag_btn_def)
  have after: "map active (type_controls shared_page_after) = [False, False]"
    by (simp add: type_controls_def shared_page_after_def shared_page_def shared_all_def
        type_btn_def tag_btn_def)
  from before after have "type_controls shared_page_after \<noteq> type_controls shared_page"
    by auto
  with ld cl before after show ?thesis by simp
qed

text \<open>
  C6 (as the code has it).  Let the markup be such that no control has both classes,
  in each group exactly one control has \<open>data-type\<close> or \<open>data-tag\<close> equal to \<open>"all"\<close>,
  that control being the group's \<open>"all"\<close> control, and the tag of every pill is the
  \<open>data-tag\<close> of exactly one tag control.  If exactly one type control and exactly one
  tag control carry the mark and they match \<open>activeType\<close> and \<open>activeTag\<close>, then the same
  holds after any finite sequence of clicks on type controls, tag controls, pills and
  the clear control, and every such sequence runs without an error.
\<close>

theorem marks_match_invariant:
  "markup_ok s \<Longrightarrow> marks_match s \<Longrightarrow>
   \<exists>s'. run es s = Inr s' \<and> marks_match s' \<and> markup_ok s'"
proof (induction es arbitrary: s)
  case Nil
  then show ?case by simp
next
  case (Cons e es)
  from fire_keeps [OF Cons.prems, of e] obtain s1 where
    f: "fire e s = Inr s1" and m: "marks_match s1" and k: "markup_ok s1"
    by blast
  from Cons.IH [OF k m] f show ?case by simp
qed

theorem marks_match_invariant_witness:
  "\<exists>s0 s'. init example_doc = Inr s0 \<and> markup_ok s0 \<and> marks_match s0 \<and>
     run [TypeBtnClick 1, PubTagClick 3, TagBtnClick 5, ClearClick, PubTagClick 0] s0 = Inr s' \<and>
     marks_match s'"
proof -
  from init_total [of example_doc] obtain s0 where i: "init example_doc = Inr s0"
    by blast
  from init_fields [OF i] have ok: "markup_ok s0" and m: "marks_match s0"
    by (simp_all add: example_doc_markup example_doc_marks)
  from marks_match_invariant [OF ok m] i ok m show ?thesis
    by blast
qed

theorem marks_match_counterexample:
  "init unlisted_doc = Inr unlisted_page \<and> marks_match unlisted_page \<and>
   no_shared_control unlisted_page \<and>
   run [PubTagClick 0] unlisted_page = Inr unlisted_page_after \<and>
   filter active (tag_controls unlisted_page_after) = [] \<and>
   \<not> marks_match unlisted_page_after"
proof -
  have sh: "entry_shown (Some str_all) (Some (ascii ''methods'')) p \<longleftrightarrow>
      indexOf (js_or (data_tags p) []) (ascii ''methods'') \<noteq> - 1" for p
    by (simp add: entry_shown_def typeMatch_def tagMatch_def ToString_def tag_lit_neq)
  have idx: "indexOf (ascii ''ai,policy'') (ascii ''methods'') = - 1"
    "indexOf (ascii ''policy'') (ascii ''methods'') = - 1"
    "indexOf (ascii ''tiktok'') (ascii ''methods'') = - 1"
    by (simp_all add: indexOf_def ascii_def)
  have ne: "ascii ''ai,policy'' \<noteq> []" "ascii ''policy'' \<noteq> []" "ascii ''tiktok'' \<noteq> []"
    by (simp_all add: ascii_def)
  have ld: "init unlisted_doc = Inr unlisted_page"
    by (simp add: init_def unlisted_doc_def unlisted_page_def example_doc_def truthy_def
        addEventListener_def updateDisplay_eq restyle_def entry_shown_all count_text_small)
  have mm: "marks_match unlisted_page"
    by (rule example_doc_marks) (simp_all add: unlisted_page_def)
  have ns: "no_shared_control unlisted_page"
    by (simp add: no_shared_control_def unlisted_page_def example_doc_controls
        type_btn_def tag_btn_def)
  have cl: "pub_tag_click 0 unlisted_page = Inr unlisted_page_after"
    by (simp add: pub_tag_click_def unlisted_page_def unlisted_page_after_def
        example_doc_def type_btn_def tag_btn_def
        Let_def truthy_def scrollIntoView_def updateDisplay_eq restyle_def sh idx ne js_or_def
        count_text_small tag_lit_neq tag_lit_neq [symmetric])
  have off: "filter active (tag_controls unlisted_page_after) = []"
    by (simp add: unlisted_page_after_def tag_controls_def type_btn_def tag_btn_def)
  from ld mm ns cl off show ?thesis
    by (simp add: marks_match_def)
qed

text \<open>
  C7 (as the code has it).  For every control whose adjacent block is hidden (inline
  display \<open>none\<close> or empty), \<open>toggleAbstract\<close> sets the block's display to \<open>block\<close> and
  the control's label to the open label, which differs from the closed one; a second
  invocation sets the display to \<open>none\<close> and the label to the closed label.  That is the
  state before the first invocation exactly when the display was \<open>none\<close> and the label
  was the closed label then; and from the state it leaves, a further pair of invocations
  does return to it.
\<close>

theorem toggleAbstract_twice:
  "nextElementSibling b = Some a \<Longrightarrow>
   abstract_display a = str_none \<or> abstract_display a = [] \<Longrightarrow>
   toggleAbstract b =
     Inr (b\<lparr>nextElementSibling := Some (a\<lparr>abstract_display := str_block\<rparr>),
            btn_textContent := label_open\<rparr>) \<and>
   toggleAbstract (b\<lparr>nextElementSibling := Some (a\<lparr>abstract_display := str_block\<rparr>),
                     btn_textContent := label_open\<rparr>) =
     Inr (b\<lparr>nextElementSibling := Some (a\<lparr>abstract_display := str_none\<rparr>),
            btn_textContent := label_closed\<rparr>) \<and>
   toggleAbstract (b\<lparr>nextElementSibling := Some (a\<lparr>abstract_display := str_none\<rparr>),
                     btn_textContent := label_closed\<rparr>) =
     Inr (b\<lparr>nextElementSibling := Some (a\<lparr>abstract_display := str_block\<rparr>),
            btn_textContent := label_open\<rparr>) \<and>
   label_open \<noteq> label_closed \<and>
   (b\<lparr>nextElementSibling := Some (a\<lparr>abstract_display := str_none\<rparr>),
      btn_textContent := label_closed\<rparr> = b
    \<longleftrightarrow> abstract_display a = str_none \<and> btn_textContent b = label_closed)"
proof -
  assume sib: "nextElementSibling b = Some a"
    and hid: "abstract_display a = str_none \<or> abstract_display a = []"
  have same: "b\<lparr>nextElementSibling := Some (a\<lparr>abstract_display := str_none\<rparr>),
      btn_textContent := label_closed\<rparr> = b
    \<longleftrightarrow> abstract_display a = str_none \<and> btn_textContent b = label_closed"
  proof
    assume eq: "b\<lparr>nextElementSibling := Some (a\<lparr>abstract_display := str_none\<rparr>),
      btn_textContent := label_closed\<rparr> = b"
    from arg_cong [OF eq, of nextElementSibling] sib
    have "a\<lparr>abstract_display := str_none\<rparr> = a" by simp
    from arg_cong [OF this, of abstract_display]
    have "abstract_display a = str_none" by simp
    moreover from arg_cong [OF eq, of btn_textContent]
    have "btn_textContent b = label_closed" by simp
    ultimately show "abstract_display a = str_none \<and> btn_textContent b = label_closed" ..
  next
    assume "abstract_display a = str_none \<and> btn_textContent b = label_closed"
    with sib show "b\<lparr>nextElementSibling := Some (a\<lparr>abstract_display := str_none\<rparr>),
      btn_textContent := label_closed\<rparr> = b"
      by simp
  qed
  from sib hid same show ?thesis
    by (simp add: toggleAbstract_def str_block_neq label_neq)
qed

theorem toggleAbstract_twice_witness:
  "toggleAbstract abstract_closed = Inr abstract_opened \<and>
   toggleAbstract abstract_opened = Inr abstract_closed \<and>
   toggleAbstract abstract_unstyled = Inr abstract_opened"
  using toggleAbstract_twice [of abstract_closed "\<lparr>abstract_display = str_none\<rparr>"]
    toggleAbstract_twice [of abstract_unstyled "\<lparr>abstract_display = []\<rparr>"]
  by (simp add: abstract_closed_def abstract_opened_def abstract_unstyled_def)

theorem toggleAbstract_roundtrip_counterexample:
  "toggleAbstract abstract_unstyled = Inr abstract_opened \<and>
   toggleAbstract abstract_opened = Inr abstract_closed \<and>
   abstract_closed \<noteq> abstract_unstyled \<and>
   nextElementSibling abstract_unstyled = Some \<lparr>abstract_display = []\<rparr> \<and>
   nextElementSibling abstract_closed = Some \<lparr>abstract_display = str_none\<rparr>"
  by (simp add: toggleAbstract_def abstract_closed_def abstract_opened_def
      abstract_unstyled_def str_block_neq str_none_nonempty)

text \<open>
  C8.  Whether or not the count node and the clear control exist, the load of the page,
  \<open>updateDisplay\<close> and every click handler return without an error.  On a page without
  the count node each of them does what it does on the page with the node, the node's
  text apart; on a page without the clear control each of them does what it does on the
  page with the control, the control's display (and, at load, its listener) apart.
\<close>

theorem missing_optional_elements:
  "(\<exists>s'. init d = Inr s') \<and> (\<exists>s'. updateDisplay s = Inr s') \<and> (\<exists>s'. fire e s = Inr s') \<and>
   init (d\<lparr>pub_count_elem := None\<rparr>) = map_sum id without_count (init d) \<and>
   init (d\<lparr>clear_filters_elem := None\<rparr>) =
     map_sum id (\<lambda>s. (without_clear s)\<lparr>clearWired := False\<rparr>) (init d) \<and>
   updateDisplay (without_count s) = map_sum id without_count (updateDisplay s) \<and>
   updateDisplay (without_clear s) = map_sum id without_clear (updateDisplay s) \<and>
   fire e (without_count s) = map_sum id without_count (fire e s) \<and>
   fire e (without_clear s) = map_sum id without_clear (fire e s)"
  using init_total [of d] fire_total [of e s]
  by (simp add: updateDisplay_eq [of s] init_without_count init_without_clear
      updateDisplay_without_count updateDisplay_without_clear
      fire_without_count fire_without_clear)

theorem missing_optional_elements_witness:
  "(\<exists>s'. init bare_doc = Inr s') \<and>
   (\<exists>s'. updateDisplay (without_clear (without_count example_page)) = Inr s') \<and>
   (\<exists>s'. fire (PubTagClick 0) (without_clear (without_count example_page)) = Inr s') \<and>
   countEl (without_clear (without_count example_page)) = None \<and>
   clearBtn (without_clear (without_count example_page)) = None \<and>
   pub_count_elem bare_doc = None \<and> clear_filters_elem bare_doc = None"
  using missing_optional_elements
    [of bare_doc "without_clear (without_count example_page)" "PubTagClick 0"]
  by (simp add: without_clear_def without_count_def bare_doc_def)

text \<open>
  C9.  Tag matching is substring containment on the whole \<open>data-tags\<close> string: for a
  selected tag \<open>g\<close> the predicate holds exactly when \<open>g\<close> is \<open>"all"\<close> or occurs somewhere in
  the string.  It is not membership among the comma-separated tokens: the tag \<open>ai\<close>
  matches the string \<open>air,policy\<close>, whose tokens are \<open>air\<close> and \<open>policy\<close>.
\<close>

theorem tagMatch_substring_not_token:
  "(tagMatch (Some g) t \<longleftrightarrow> g = str_all \<or> (\<exists>pre suf. t = pre @ g @ suf)) \<and>
   tagMatch (Some (ascii ''ai'')) (ascii ''air,policy'') \<and>
   tag_tokens (ascii ''air,policy'') = [ascii ''air'', ascii ''policy''] \<and>
   ascii ''ai'' \<notin> set (tag_tokens (ascii ''air,policy''))"
proof -
  have "tagMatch (Some g) t \<longleftrightarrow> g = str_all \<or> (\<exists>pre suf. t = pre @ g @ suf)"
    by (simp add: tagMatch_def ToString_def indexOf_found)
  moreover have "tagMatch (Some (ascii ''ai'')) (ascii ''air,policy'')"
    by (simp add: tagMatch_def ToString_def indexOf_def ascii_def)
  moreover have tok: "tag_tokens (ascii ''air,policy'') = [ascii ''air'', ascii ''policy'']"
    by (simp add: tag_tokens_def ascii_def)
  moreover have "ascii ''ai'' \<notin> set (tag_tokens (ascii ''air,policy''))"
    unfolding tok by (simp add: ascii_def)
  ultimately show ?thesis by blast
qed

text \<open>
  C10.  An entry without the \<open>data-tags\<close> attribute is treated as an entry whose
  \<open>data-tags\<close> is the empty string: \<open>updateDisplay\<close> returns, with the result it has on
  the page where the attribute is present and empty; and whenever \<open>activeTag\<close> is a
  non-empty string other than \<open>"all"\<close> the entry is hidden, whatever its type.
\<close>

theorem absent_tags_hidden:
  "i < length (allPubs s) \<Longrightarrow> data_tags (allPubs s ! i) = None \<Longrightarrow>
   \<exists>s'. updateDisplay s = Inr s' \<and>
     updateDisplay (s\<lparr>allPubs := (allPubs s)[i := (allPubs s ! i)\<lparr>data_tags := Some []\<rparr>]\<rparr>) =
       Inr (s'\<lparr>allPubs := (allPubs s')[i := (allPubs s' ! i)\<lparr>data_tags := Some []\<rparr>]\<rparr>) \<and>
     (\<forall>g. activeTag s = Some g \<and> g \<noteq> [] \<and> g \<noteq> str_all \<longrightarrow>
        \<not> is_visible (allPubs s' ! i) \<and> style_display (allPubs s' ! i) = str_none)"
proof -
  assume i: "i < length (allPubs s)" and none: "data_tags (allPubs s ! i) = None"
  let ?e = "allPubs s ! i"
  let ?e' = "?e\<lparr>data_tags := Some []\<rparr>"
  have sh: "entry_shown aType aTag ?e' = entry_shown aType aTag ?e" for aType aTag
    using none by (simp add: entry_shown_def js_or_def)
  have re: "restyle aType aTag ?e' = (restyle aType aTag ?e)\<lparr>data_tags := Some []\<rparr>"
    for aType aTag
    using sh [of aType aTag] by (simp add: restyle_def)
  have cnt: "length (filter (entry_shown aType aTag) ((allPubs s)[i := ?e'])) =
      length (filter (entry_shown aType aTag) (allPubs s))" for aType aTag
    using i sh [of aType aTag] by (simp add: filter_length_update)
  have hid: "\<not> entry_shown (activeType s) (Some g) ?e" if "g \<noteq> []" "g \<noteq> str_all" for g
    using none that
    by (simp add: entry_shown_def tagMatch_def js_or_def ToString_def indexOf_def)
  show ?thesis
    using i hid
    by (auto simp: updateDisplay_eq map_update re cnt is_visible_restyle)
       (simp add: restyle_def)
qed

theorem absent_tags_hidden_witness:
  "\<exists>s'. updateDisplay untagged_page = Inr s' \<and> \<not> is_visible (allPubs s' ! 0) \<and>
     data_tags (allPubs untagged_page ! 0) = None \<and>
     typeMatch (activeType untagged_page) (data_type (allPubs untagged_page ! 0))"
  using absent_tags_hidden [of 0 untagged_page]
  by (auto simp: untagged_page_def example_page_sel example_page_def lit_neq typeMatch_def)

end
